theory Spec2Isabelle
  imports Complex_Main "HOL-Library.Product_Lexorder"
begin

section \<open>Strings and numbers of the server code\<close>

text \<open>
  The server (\<^verbatim>\<open>src/unnamed/part_001\<close>, the in-memory variant of
  \<^verbatim>\<open>server/index.js\<close>) is JavaScript. A JavaScript string is modelled as a
  \<^typ>\<open>string\<close>, one \<^typ>\<open>char\<close> per character of ASCII text; a character beyond
  ASCII stands as its UTF-8 bytes. \<^verbatim>\<open>toLowerCase\<close> lowers the letters A to Z;
  the bytes of other characters are left as they are, so the model is exact on ASCII text.
\<close>

definition lower_char :: "char \<Rightarrow> char" where
  "lower_char c =
     (let n = (of_char c :: nat) in if 65 \<le> n \<and> n \<le> 90 then char_of (n + 32) else c)"

definition toLowerCase :: "string \<Rightarrow> string" where
  "toLowerCase s = map lower_char s"

text \<open>\<^verbatim>\<open>s.startsWith(p)\<close> and \<^verbatim>\<open>s.includes(p)\<close>.\<close>

definition startsWith :: "string \<Rightarrow> string \<Rightarrow> bool" where
  "startsWith s p = (take (length p) s = p)"

fun str_includes :: "string \<Rightarrow> string \<Rightarrow> bool" where
  "str_includes [] p = (p = [])"
| "str_includes (c # cs) p = (startsWith (c # cs) p \<or> str_includes cs p)"

text \<open>
  A JavaScript number is a double. The comparisons of the policy rules are exact on
  doubles, so a finite number is modelled by the real it denotes; the three non-finite
  doubles are kept apart, because \<^verbatim>\<open>Number.isFinite\<close> tells them from the rest.
\<close>

datatype jsnum = Finite real | PosInfinity | NegInfinity | NaN

section \<open>The policy evaluator\<close>

text \<open>
  The structured query: every field is optional (\<^verbatim>\<open>null\<close> or absent is
  \<^term>\<open>None\<close>).
\<close>

record structured_query =
  ageYears :: "jsnum option"
  ageMonths :: "jsnum option"
  procedure :: "string option"
  location :: "string option"
  policyAgeMonths :: "jsnum option"

record policy_decision =
  Decision :: string
  Amount :: "nat option"

text \<open>\<^verbatim>\<open>Number.isFinite(x) ? x : null\<close>\<close>

fun finite_or_null :: "jsnum option \<Rightarrow> real option" where
  "finite_or_null (Some (Finite r)) = Some r"
| "finite_or_null _ = None"

definition tier1 :: "string list" where
  "tier1 = [''mumbai'', ''delhi'', ''bangalore'', ''kolkata'', ''chennai'']"

definition evaluatePolicyLogic :: "structured_query \<Rightarrow> policy_decision" where
  "evaluatePolicyLogic structured =
     (let age = finite_or_null (ageYears structured);
          policyAge = finite_or_null (policyAgeMonths structured);
          loc = toLowerCase (case location structured of None \<Rightarrow> [] | Some l \<Rightarrow> l)
      in if (case age of None \<Rightarrow> False | Some a \<Rightarrow> a < 0.5)
           then \<lparr>Decision = ''rejected'', Amount = None\<rparr>
         else if (case age of None \<Rightarrow> False | Some a \<Rightarrow> a < 18 \<or> a > 60)
           then \<lparr>Decision = ''rejected'', Amount = None\<rparr>
         else if (case policyAge of None \<Rightarrow> False | Some m \<Rightarrow> m < 6)
           then \<lparr>Decision = ''rejected'', Amount = None\<rparr>
         else let isTier1 = (loc \<in> set tier1);
                  amount = (if isTier1 then 5000 else 3000)
              in \<lparr>Decision = ''approved'', Amount = Some amount\<rparr>)"

text \<open>
  The rules as section 4.6 of the specification words them. A field is known when it
  holds a finite number; the location is compared after lowering its case.
\<close>

fun known :: "jsnum option \<Rightarrow> bool" where
  "known (Some (Finite r)) = True"
| "known _ = False"

fun known_below :: "jsnum option \<Rightarrow> real \<Rightarrow> bool" where
  "known_below (Some (Finite r)) b = (r < b)"
| "known_below _ b = False"

fun known_above :: "jsnum option \<Rightarrow> real \<Rightarrow> bool" where
  "known_above (Some (Finite r)) b = (r > b)"
| "known_above _ b = False"

fun in_tier1 :: "string option \<Rightarrow> bool" where
  "in_tier1 None = False"
| "in_tier1 (Some s) =
     (toLowerCase s \<in> {''mumbai'', ''delhi'', ''bangalore'', ''kolkata'', ''chennai''})"

definition policy_rules :: "structured_query \<Rightarrow> policy_decision" where
  "policy_rules q =
     (if known_below (ageYears q) 0.5 then \<lparr>Decision = ''rejected'', Amount = None\<rparr>
      else if known_below (ageYears q) 18 \<or> known_above (ageYears q) 60
        then \<lparr>Decision = ''rejected'', Amount = None\<rparr>
      else if known_below (policyAgeMonths q) 6 then \<lparr>Decision = ''rejected'', Amount = None\<rparr>
      else if in_tier1 (location q) then \<lparr>Decision = ''approved'', Amount = Some 5000\<rparr>
      else \<lparr>Decision = ''approved'', Amount = Some 3000\<rparr>)"

section \<open>The embedding provider\<close>

text \<open>
  Errors thrown inside the server are values of \<open>js_error\<close>.
\<close>

datatype js_error = TypeError | SyntaxError | NetworkError | IOError

type_synonym vec = "real list"

text \<open>
  The embedding model: \<^term>\<open>None\<close> when it failed to load at start-up
  (\<^verbatim>\<open>embedder = null\<close>); a loaded model may still throw on an input.
\<close>

type_synonym embedder = "(string \<Rightarrow> js_error + vec) option"

text \<open>
  \<^verbatim>\<open>ToInt32\<close>: the value modulo \<open>2^32\<close>, read as a signed 32-bit integer. It is what
  \<^verbatim>\<open>a << 5\<close> and \<^verbatim>\<open>a & a\<close> apply to their operands.
\<close>

definition toInt32 :: "int \<Rightarrow> int" where
  "toInt32 x = (x + 2 ^ 31) mod 2 ^ 32 - 2 ^ 31"

text \<open>
  One step of the reducer
  \<^verbatim>\<open>(a, b) => { a = ((a << 5) - a) + b.charCodeAt(0); return a & a; }\<close>.
\<close>

definition hash_step :: "int \<Rightarrow> char \<Rightarrow> int" where
  "hash_step a b = (let a' = (toInt32 (a * 32) - a) + of_char b in toInt32 a')"

definition fallbackHash :: "string \<Rightarrow> int" where
  "fallbackHash text = foldl hash_step 0 text"

text \<open>
  \<^verbatim>\<open>new Array(384).fill(0).map((_, i) => Math.sin(hash + i) * 0.1)\<close>, with the sine
  and the product taken over the reals.
\<close>

definition fallbackEmbedding :: "string \<Rightarrow> vec" where
  "fallbackEmbedding text =
     (let hash = fallbackHash text
      in map (\<lambda>i. sin (real_of_int (hash + int i)) * 0.1) [0..<384])"

definition embedQuery :: "embedder \<Rightarrow> string \<Rightarrow> vec" where
  "embedQuery embedder text =
     (case embedder of
        None \<Rightarrow> fallbackEmbedding text
      | Some model \<Rightarrow>
          (case model text of
             Inr output \<Rightarrow> output
           | Inl error \<Rightarrow> fallbackEmbedding text))"

text \<open>Whether the primary model gives no vector for a text: not loaded, or it throws.\<close>

fun model_fails :: "embedder \<Rightarrow> string \<Rightarrow> bool" where
  "model_fails None text = True"
| "model_fails (Some model) text = (case model text of Inl error \<Rightarrow> True | Inr output \<Rightarrow> False)"

text \<open>
  The hash as section 4.1 of the specification words it:
  \<^verbatim>\<open>hash = (hash*31 + charCode) mod 2^32\<close> over all characters.
\<close>

definition rolling_hash :: "string \<Rightarrow> int" where
  "rolling_hash text = foldl (\<lambda>h c. (h * 31 + of_char c) mod 2 ^ 32) 0 text"

section \<open>Arithmetic on doubles\<close>

text \<open>
  The arithmetic of \<^verbatim>\<open>cosineSimilarity\<close> is that of IEEE 754 doubles: every sum,
  product, quotient and square root is the exact result rounded to the nearest double, ties
  to the even significand. \<open>round_even\<close> rounds a real to the nearest integer, ties to
  the even one.
\<close>

definition round_even :: "real \<Rightarrow> int" where
  "round_even x =
     (let f = \<lfloor>x\<rfloor>; r = x - of_int f
      in if r < 1 / 2 then f else if 1 / 2 < r then f + 1 else if even f then f else f + 1)"

text \<open>
  The exponent of the binade of a non-zero real: \<open>\<lfloor>log\<^sub>2 |x|\<rfloor>\<close>, and \<open>-1022\<close> in the
  subnormal range. A double of that binade is a multiple of \<open>2\<^sup>e\<^sup>-\<^sup>5\<^sup>2\<close>.
\<close>

definition binade :: "real \<Rightarrow> int" where
  "binade x = max \<lfloor>log 2 \<bar>x\<bar>\<rfloor> (- 1022)"

text \<open>
  Rounding to the nearest double. The significand has 53 bits, so the result is the
  nearest multiple of \<open>2\<^sup>e\<^sup>-\<^sup>5\<^sup>2\<close>; a result of magnitude \<open>2\<^sup>1\<^sup>0\<^sup>2\<^sup>4\<close> or more is an
  infinity. The two zeros of the format are one value here: they compare equal, and the
  code below neither divides by a zero nor tells its sign.
\<close>

definition round_double :: "real \<Rightarrow> jsnum" where
  "round_double x =
     (if x = 0 then Finite 0
      else let ulp = 2 powr (of_int (binade x) - 52);
               y = of_int (round_even (x / ulp)) * ulp
           in if 2 powr 1024 \<le> y then PosInfinity
              else if y \<le> - (2 powr 1024) then NegInfinity
              else Finite y)"

text \<open>The operators \<^verbatim>\<open>-x\<close>, \<^verbatim>\<open>x + y\<close>, \<^verbatim>\<open>x - y\<close>, \<^verbatim>\<open>x * y\<close>, \<^verbatim>\<open>x / y\<close> and \<^verbatim>\<open>Math.sqrt(x)\<close>.\<close>

fun fneg :: "jsnum \<Rightarrow> jsnum" where
  "fneg (Finite x) = Finite (- x)"
| "fneg PosInfinity = NegInfinity"
| "fneg NegInfinity = PosInfinity"
| "fneg NaN = NaN"

fun fadd :: "jsnum \<Rightarrow> jsnum \<Rightarrow> jsnum" where
  "fadd (Finite x) (Finite y) = round_double (x + y)"
| "fadd NaN y = NaN"
| "fadd x NaN = NaN"
| "fadd PosInfinity NegInfinity = NaN"
| "fadd NegInfinity PosInfinity = NaN"
| "fadd PosInfinity y = PosInfinity"
| "fadd x PosInfinity = PosInfinity"
| "fadd NegInfinity y = NegInfinity"
| "fadd x NegInfinity = NegInfinity"

definition fsub :: "jsnum \<Rightarrow> jsnum \<Rightarrow> jsnum" where
  "fsub x y = fadd x (fneg y)"

fun fmul :: "jsnum \<Rightarrow> jsnum \<Rightarrow> jsnum" where
  "fmul (Finite x) (Finite y) = round_double (x * y)"
| "fmul NaN y = NaN"
| "fmul x NaN = NaN"
| "fmul (Finite x) y = (if x = 0 then NaN else if 0 < x then y else fneg y)"
| "fmul x (Finite y) = (if y = 0 then NaN else if 0 < y then x else fneg x)"
| "fmul PosInfinity y = y"
| "fmul NegInfinity y = fneg y"

fun fdiv :: "jsnum \<Rightarrow> jsnum \<Rightarrow> jsnum" where
  "fdiv (Finite x) (Finite y) =
     (if y = 0 then (if x = 0 then NaN else if 0 < x then PosInfinity else NegInfinity)
      else round_double (x / y))"
| "fdiv NaN y = NaN"
| "fdiv x NaN = NaN"
| "fdiv (Finite x) y = Finite 0"
| "fdiv x (Finite y) = (if 0 \<le> y then x else fneg x)"
| "fdiv x y = NaN"

fun fsqrt :: "jsnum \<Rightarrow> jsnum" where
  "fsqrt (Finite x) = (if x < 0 then NaN else round_double (sqrt x))"
| "fsqrt PosInfinity = PosInfinity"
| "fsqrt NegInfinity = NaN"
| "fsqrt NaN = NaN"

text \<open>\<^verbatim>\<open>x > 0\<close>\<close>

fun js_positive :: "jsnum \<Rightarrow> bool" where
  "js_positive (Finite x) = (0 < x)"
| "js_positive PosInfinity = True"
| "js_positive NegInfinity = False"
| "js_positive NaN = False"

text \<open>
  The values that are doubles: the non-finite ones, and the finite ones that are a
  multiple of the least positive double \<open>2\<^sup>-\<^sup>1\<^sup>0\<^sup>7\<^sup>4\<close>. Every result of an operation is
  one.
\<close>

definition is_double :: "jsnum \<Rightarrow> bool" where
  "is_double v =
     (case v of Finite y \<Rightarrow> (\<exists>n :: int. y = of_int n * 2 powr (- 1074)) | _ \<Rightarrow> True)"

text \<open>The values not below \<open>2\<^sup>-\<^sup>5\<^sup>3\<^sup>7\<close>, the square root of the least positive double.\<close>

fun above_root :: "jsnum \<Rightarrow> bool" where
  "above_root (Finite y) = (2 powr (- 537) \<le> y)"
| "above_root PosInfinity = True"
| "above_root NegInfinity = False"
| "above_root NaN = True"

section \<open>Cosine similarity\<close>

text \<open>
  The loop of \<^verbatim>\<open>cosineSimilarity\<close> keeps three running sums; one pass of its body
  at index \<open>i\<close> is \<open>cosine_step\<close>. The function is only entered with arrays of finite
  numbers, and it returns 0 before the loop when their lengths differ.
\<close>

definition cosine_step :: "vec \<Rightarrow> vec \<Rightarrow> jsnum \<times> jsnum \<times> jsnum \<Rightarrow> nat \<Rightarrow> jsnum \<times> jsnum \<times> jsnum" where
  "cosine_step vecA vecB acc i =
     (case acc of (dotProduct, normA, normB) \<Rightarrow>
        (fadd dotProduct (fmul (Finite (vecA ! i)) (Finite (vecB ! i))),
         fadd normA (fmul (Finite (vecA ! i)) (Finite (vecA ! i))),
         fadd normB (fmul (Finite (vecB ! i)) (Finite (vecB ! i)))))"

definition cosine_sums :: "vec \<Rightarrow> vec \<Rightarrow> jsnum \<times> jsnum \<times> jsnum" where
  "cosine_sums vecA vecB =
     foldl (cosine_step vecA vecB) (Finite 0, Finite 0, Finite 0) [0..<length vecA]"

definition cosineSimilarity :: "vec \<Rightarrow> vec \<Rightarrow> jsnum" where
  "cosineSimilarity vecA vecB =
     (if length vecA \<noteq> length vecB then Finite 0
      else case cosine_sums vecA vecB of (dotProduct, normA, normB) \<Rightarrow>
        if normA = Finite 0 \<or> normB = Finite 0 then Finite 0
        else fdiv dotProduct (fmul (fsqrt normA) (fsqrt normB)))"

text \<open>
  The quantities of the formula \<open>sim = (a\<cdot>b) / (\<parallel>a\<parallel>\<cdot>\<parallel>b\<parallel>)\<close> of section 4.2 of the
  specification, in exact arithmetic: the squared norm \<open>\<Sum> v[i]\<^sup>2\<close> of a vector and the dot
  product \<open>\<Sum> a[i] * b[i]\<close> of two vectors of one length.
\<close>

definition norm_sq :: "vec \<Rightarrow> real" where
  "norm_sq v = (\<Sum>x\<leftarrow>v. x * x)"

definition dot :: "vec \<Rightarrow> vec \<Rightarrow> real" where
  "dot a b = (\<Sum>(x, y)\<leftarrow>zip a b. x * y)"

definition exact_cosine :: "vec \<Rightarrow> vec \<Rightarrow> real" where
  "exact_cosine a b = dot a b / (sqrt (norm_sq a) * sqrt (norm_sq b))"

section \<open>The in-memory vector index\<close>

record doc_metadata =
  source :: string
  docId :: string
  isSystemDocument :: bool

text \<open>
  A chunk handed to the index, and an entry of a search result:
  \<^verbatim>\<open>{ pageContent, metadata }\<close>.
\<close>

record chunk =
  pageContent :: string
  metadata :: "doc_metadata option"

text \<open>An entry of \<^verbatim>\<open>indexedDocuments\<close>: \<^verbatim>\<open>{ content, embedding, metadata }\<close>.\<close>

record indexed_doc =
  content :: string
  embedding :: vec
  doc_meta :: "doc_metadata option"

definition addDocuments :: "embedder \<Rightarrow> indexed_doc list \<Rightarrow> chunk list \<Rightarrow> indexed_doc list" where
  "addDocuments embedder indexedDocuments docsToAdd =
     foldl (\<lambda>index d.
              index @ [\<lparr>content = pageContent d,
                         embedding = embedQuery embedder (pageContent d),
                         doc_meta = metadata d\<rparr>])
       indexedDocuments docsToAdd"

text \<open>
  \<^verbatim>\<open>array.sort(comparefn)\<close> is a stable sort: where \<^verbatim>\<open>comparefn(x, y) > 0\<close> it
  puts \<open>y\<close> before \<open>x\<close>, and it keeps the order of two elements otherwise. Insertion
  sort is one such sort; every stable sort returns the same array when the comparator is a
  consistent ordering. (With a similarity that is \<^verbatim>\<open>NaN\<close> the comparator is not, and
  the language leaves the order to the implementation.)
\<close>

fun insert_sorted :: "('a \<Rightarrow> 'a \<Rightarrow> jsnum) \<Rightarrow> 'a \<Rightarrow> 'a list \<Rightarrow> 'a list" where
  "insert_sorted comparefn x [] = [x]"
| "insert_sorted comparefn x (y # ys) =
     (if js_positive (comparefn x y) then y # insert_sorted comparefn x ys else x # y # ys)"

definition array_sort :: "('a \<Rightarrow> 'a \<Rightarrow> jsnum) \<Rightarrow> 'a list \<Rightarrow> 'a list" where
  "array_sort comparefn xs = foldr (insert_sorted comparefn) xs []"

text \<open>
  The search: every indexed entry is scored against the embedding of the query, the
  scored entries are sorted by
  \<^verbatim>\<open>similarities.sort((a, b) => b.similarity - a.similarity)\<close>, and the first \<open>k\<close> are
  returned.
\<close>

definition similarity_to :: "embedder \<Rightarrow> string \<Rightarrow> indexed_doc \<Rightarrow> jsnum" where
  "similarity_to embedder query doc =
     cosineSimilarity (embedQuery embedder query) (embedding doc)"

definition similaritySearch :: "embedder \<Rightarrow> indexed_doc list \<Rightarrow> string \<Rightarrow> nat \<Rightarrow> chunk list" where
  "similaritySearch embedder indexedDocuments query k =
     (let similarities = map (\<lambda>doc. (doc, similarity_to embedder query doc)) indexedDocuments;
          sorted = array_sort (\<lambda>a b. fsub (snd b) (snd a)) similarities
      in map (\<lambda>(doc, similarity). \<lparr>pageContent = content doc, metadata = doc_meta doc\<rparr>)
           (take k sorted))"



section \<open>Retrieval for a query\<close>

record retrieval_settings =
  includeSystemDocuments :: bool
  allowedDocIds :: "string set option"

text \<open>
  Step 2 of the \<^verbatim>\<open>/process-query\<close> handler:
  \<^verbatim>\<open>const searchResults = await vectorStore.similaritySearch(query, 5)\<close>. The handler
  does not read \<^verbatim>\<open>retrievalSettings\<close>.
\<close>

definition searchResults :: "retrieval_settings \<Rightarrow> embedder \<Rightarrow> indexed_doc list \<Rightarrow> string \<Rightarrow> chunk list" where
  "searchResults retrievalSettings embedder indexedDocuments query =
     similaritySearch embedder indexedDocuments query 5"

text \<open>\<^verbatim>\<open>searchResults.map(doc => doc.pageContent).join('\n\n')\<close>\<close>

fun join :: "string \<Rightarrow> string list \<Rightarrow> string" where
  "join sep [] = []"
| "join sep [x] = x"
| "join sep (x # y # ys) = x @ sep @ join sep (y # ys)"

definition context_of :: "chunk list \<Rightarrow> string" where
  "context_of results = join [CHR 0x0A, CHR 0x0A] (map pageContent results)"

text \<open>The entry that \<^verbatim>\<open>addDocuments\<close> pushes for a chunk.\<close>

definition entry_of :: "embedder \<Rightarrow> chunk \<Rightarrow> indexed_doc" where
  "entry_of embedder d =
     \<lparr>content = pageContent d, embedding = embedQuery embedder (pageContent d),
      doc_meta = metadata d\<rparr>"

text \<open>
  What section 8 of the specification asks of retrieval under an allow-list: no returned
  chunk comes from a document outside it.
\<close>

definition within_scope :: "retrieval_settings \<Rightarrow> chunk list \<Rightarrow> bool" where
  "within_scope settings results =
     (case allowedDocIds settings of
        None \<Rightarrow> True
      | Some allowed \<Rightarrow>
          list_all (\<lambda>r. case metadata r of None \<Rightarrow> False | Some m \<Rightarrow> docId m \<in> allowed) results)"

section \<open>Character classes and integers in text\<close>

text \<open>\<^verbatim>\<open>\d\<close>, \<^verbatim>\<open>\w\<close>, \<^verbatim>\<open>\s\<close> (its ASCII members) and \<^verbatim>\<open>[\d,]\<close>.\<close>

definition is_digit :: "char \<Rightarrow> bool" where
  "is_digit c = (let n = (of_char c :: nat) in 48 \<le> n \<and> n \<le> 57)"

definition is_word_char :: "char \<Rightarrow> bool" where
  "is_word_char c =
     (let n = (of_char c :: nat)
      in (48 \<le> n \<and> n \<le> 57) \<or> (65 \<le> n \<and> n \<le> 90) \<or> (97 \<le> n \<and> n \<le> 122) \<or> n = 95)"

definition is_space :: "char \<Rightarrow> bool" where
  "is_space c = (let n = (of_char c :: nat) in (9 \<le> n \<and> n \<le> 13) \<or> n = 32)"

definition is_amount_char :: "char \<Rightarrow> bool" where
  "is_amount_char c = (is_digit c \<or> c = CHR '','')"

text \<open>
  The value of a string of decimal digits, as \<^verbatim>\<open>parseInt\<close> reads it. JavaScript
  rounds a value above \<open>2^53\<close> to the nearest double; the model keeps the exact integer.
\<close>

definition digits_value :: "string \<Rightarrow> nat" where
  "digits_value ds = foldl (\<lambda>n c. 10 * n + (of_char c - 48)) 0 ds"

section \<open>The heuristic query parser\<close>

text \<open>
  \<^verbatim>\<open>query.match(/\d+/g) || []\<close>: the maximal runs of digits, from left to right.
\<close>

function digit_runs :: "string \<Rightarrow> string list" where
  "digit_runs s =
     (case dropWhile (\<lambda>c. \<not> is_digit c) s of
        [] \<Rightarrow> []
      | c # r \<Rightarrow> (c # takeWhile is_digit r) # digit_runs (dropWhile is_digit r))"
  by pat_completeness auto
termination
proof (relation "measure length")
  show "wf (measure length)" by simp
next
  fix s :: string and c r
  assume "dropWhile (\<lambda>c. \<not> is_digit c) s = c # r"
  then have "length (c # r) \<le> length s"
    by (metis length_dropWhile_le)
  moreover have "length (dropWhile is_digit r) \<le> length r"
    by (rule length_dropWhile_le)
  ultimately show "(dropWhile is_digit r, s) \<in> measure length"
    by simp
qed

declare digit_runs.simps [simp del]

text \<open>
  \<^verbatim>\<open>parseInt(numbers[0], 10)\<close> on a run of digits. A value that rounds to no finite
  double is \<^verbatim>\<open>Infinity\<close>.
\<close>

definition double_overflow :: nat where
  "double_overflow = 2 ^ 1024 - 2 ^ 970"

definition parseInt10 :: "string \<Rightarrow> jsnum" where
  "parseInt10 ds =
     (let n = digits_value ds
      in if n < double_overflow then Finite (real n) else PosInfinity)"

text \<open>The first integer token of a text: its first maximal run of digits.\<close>

definition first_int_token :: "string \<Rightarrow> string option" where
  "first_int_token s =
     (case dropWhile (\<lambda>c. \<not> is_digit c) s of
        [] \<Rightarrow> None
      | c # r \<Rightarrow> Some (c # takeWhile is_digit r))"

definition locations :: "string list" where
  "locations = [''mumbai'', ''delhi'', ''bangalore'', ''kolkata'', ''chennai'', ''pune'']"

definition basicHeuristicParse :: "string \<Rightarrow> structured_query" where
  "basicHeuristicParse query =
     (let numbers = digit_runs query;
          age = (case numbers of
                   [] \<Rightarrow> None
                 | n0 # ns \<Rightarrow> if str_includes (toLowerCase query) ''year''
                             then Some (parseInt10 n0) else None);
          policyAge = (case numbers of
                         [] \<Rightarrow> None
                       | n0 # ns \<Rightarrow> if str_includes (toLowerCase query) ''month''
                                   then Some (parseInt10 n0) else None);
          lower = toLowerCase query;
          loc = find (\<lambda>l. str_includes lower l) locations;
          proc = (if str_includes lower ''knee'' then Some ''knee surgery''
                  else if str_includes lower ''hip'' then Some ''hip surgery''
                  else if str_includes lower ''surgery'' then Some ''surgery''
                  else None)
      in \<lparr>ageYears = (case finite_or_null age of None \<Rightarrow> None | Some r \<Rightarrow> age),
          ageMonths = None,
          procedure = proc,
          location = loc,
          policyAgeMonths = policyAge\<rparr>)"

text \<open>
  The rule as section 4.5 of the specification words it: the first integer token that is
  followed by a keyword. A token is followed by the keyword when the text after it, past
  any blanks, starts with the keyword in either case.
\<close>

function first_int_followed_by :: "string \<Rightarrow> string \<Rightarrow> nat option" where
  "first_int_followed_by keyword s =
     (case dropWhile (\<lambda>c. \<not> is_digit c) s of
        [] \<Rightarrow> None
      | c # r \<Rightarrow>
          if startsWith (toLowerCase (dropWhile is_space (dropWhile is_digit r))) keyword
          then Some (digits_value (c # takeWhile is_digit r))
          else first_int_followed_by keyword (dropWhile is_digit r))"
  by pat_completeness auto
termination
proof (relation "measure (\<lambda>(keyword, s). length s)")
  show "wf (measure (\<lambda>(keyword, s). length s))" by simp
next
  fix keyword s :: string and c r
  assume "dropWhile (\<lambda>c. \<not> is_digit c) s = c # r"
  then have "length (c # r) \<le> length s"
    by (metis length_dropWhile_le)
  moreover have "length (dropWhile is_digit r) \<le> length r"
    by (rule length_dropWhile_le)
  ultimately show "((keyword, dropWhile is_digit r), (keyword, s)) \<in> measure (\<lambda>(keyword, s). length s)"
    by simp
qed

declare first_int_followed_by.simps [simp del]

section \<open>Answer synthesis\<close>

text \<open>
  The fields the prompt asks the language model for. A field absent from the parsed JSON
  reads as \<^verbatim>\<open>undefined\<close>, here \<^term>\<open>None\<close>; a field that is present holds a
  string.
\<close>

record llm_answer =
  answer :: "string option"
  decision :: "string option"
  reasoning :: "string option"
  relevant_clauses :: "string list option"
  limitations :: "string option"
  confidence :: "string option"

text \<open>
  The response of the handler: the answer of the model with the legacy fields
  \<^verbatim>\<open>Decision\<close>, \<^verbatim>\<open>Amount\<close> and \<^verbatim>\<open>Justification\<close> set on it.
\<close>

record answer_payload = policy_decision +
  Justification :: string
  model_answer :: llm_answer

text \<open>
  What the call to the language model comes to. The request can fail in transport; the
  reply can be without a text at \<^verbatim>\<open>data.candidates[0].content.parts[0].text\<close>;
  the text can fail to parse as JSON; or it parses, to \<^verbatim>\<open>null\<close> or to an object,
  which holds all, some or none of the fields the prompt asks for. (The prompt asks for an
  object; arrays and primitives are left out.)
\<close>

datatype parsed_json = JsonNull | JsonObject llm_answer

datatype llm_outcome =
    HttpError nat
  | Timeout
  | NoCandidateText
  | ParseFailure
  | Parsed parsed_json

definition moneyKeywords :: "string list" where
  "moneyKeywords =
     [''amount'', ''cost'', ''price'', ''fee'', ''payout'', ''coverage'', ''limit'', ''maximum'',
      ''minimum'', ''pay'', ''paid'', ''payment'', ''claim amount'', ''benefit amount'',
      ''sum insured'', ''deductible'', ''premium'']"

definition isMoneyQuestion :: "string \<Rightarrow> bool" where
  "isMoneyQuestion query = list_ex (\<lambda>keyword. str_includes (toLowerCase query) keyword) moneyKeywords"

text \<open>The rupee sign U+20B9, in UTF-8.\<close>

definition rupee :: string where
  "rupee = [CHR 0xE2, CHR 0x82, CHR 0xB9]"

text \<open>
  \<^verbatim>\<open>(?:dollars?|rupees?|USD|INR)\b\<close> under the flag \<^verbatim>\<open>i\<close>, at the start of a text: the
  alternatives in the order the matcher tries them, each needing a word boundary after it.
\<close>

definition currency_words :: "string list" where
  "currency_words = [''dollars'', ''dollar'', ''rupees'', ''rupee'', ''usd'', ''inr'']"

definition word_at :: "string \<Rightarrow> string \<Rightarrow> bool" where
  "word_at s w =
     (startsWith (toLowerCase s) w
      \<and> (case drop (length w) s of [] \<Rightarrow> True | c # cs \<Rightarrow> \<not> is_word_char c))"

definition currency_word :: "string \<Rightarrow> string option" where
  "currency_word s =
     (case find (word_at s) currency_words of
        None \<Rightarrow> None
      | Some w \<Rightarrow> Some (take (length w) s))"

text \<open>
  A match of
  \<^verbatim>\<open>/\$[\d,]+|R[\d,]+|\b\d+[\d,]*\s*(?:dollars?|rupees?|USD|INR)\b/i\<close>
  (\<^verbatim>\<open>R\<close> standing for the rupee sign)
  that starts at the head of \<open>s\<close>, where \<open>prev\<close> is the character before it. The three
  alternatives start with different characters. In the third one the run of digits and
  commas and the run of blanks are taken whole: a shorter one is followed by a digit, a
  comma or a blank, where no currency word starts.
\<close>

definition match_at :: "char option \<Rightarrow> string \<Rightarrow> string option" where
  "match_at prev s =
     (case s of
        [] \<Rightarrow> None
      | c # r \<Rightarrow>
          if c = CHR ''$'' then
            (if takeWhile is_amount_char r \<noteq> [] then Some (c # takeWhile is_amount_char r)
             else None)
          else if startsWith s rupee then
            (if takeWhile is_amount_char (drop 3 s) \<noteq> []
             then Some (rupee @ takeWhile is_amount_char (drop 3 s)) else None)
          else if is_digit c \<and> (case prev of None \<Rightarrow> True | Some p \<Rightarrow> \<not> is_word_char p) then
            (let number = takeWhile is_amount_char s;
                 rest = dropWhile is_amount_char s;
                 blanks = takeWhile is_space rest
             in case currency_word (dropWhile is_space rest) of
                  None \<Rightarrow> None
                | Some w \<Rightarrow> Some (number @ blanks @ w))
          else None)"

text \<open>\<^verbatim>\<open>text.match(regex)\<close>: the match at the leftmost position that has one.\<close>

fun first_match :: "char option \<Rightarrow> string \<Rightarrow> string option" where
  "first_match prev [] = None"
| "first_match prev (c # cs) =
     (case match_at prev (c # cs) of
        Some m \<Rightarrow> Some m
      | None \<Rightarrow> first_match (Some c) cs)"

definition amountMatch :: "string \<Rightarrow> string option" where
  "amountMatch text = first_match None text"

text \<open>
  \<^verbatim>\<open>amountMatch[0].replace(/[$,R]/g, '').replace(/[^\d]/g, '')\<close> keeps the digits of
  the match; \<^verbatim>\<open>parseInt(amountStr) || null\<close> is \<^verbatim>\<open>null\<close> when there is no digit
  (\<^verbatim>\<open>NaN\<close>) and when the number is 0.
\<close>

definition extractAmount :: "string \<Rightarrow> nat option" where
  "extractAmount text =
     (case amountMatch text of
        None \<Rightarrow> None
      | Some m \<Rightarrow>
          (let amountStr = filter is_digit m
           in if amountStr = [] then None
              else if digits_value amountStr = 0 then None
              else Some (digits_value amountStr)))"

text \<open>A field in a string concatenation, and \<^verbatim>\<open>field || fallback\<close>.\<close>

definition js_string :: "string option \<Rightarrow> string" where
  "js_string x = (case x of None \<Rightarrow> ''undefined'' | Some s \<Rightarrow> s)"

definition or_default :: "string option \<Rightarrow> string \<Rightarrow> string" where
  "or_default x d = (case x of None \<Rightarrow> d | Some s \<Rightarrow> if s = [] then d else s)"

text \<open>The statements of the \<^verbatim>\<open>try\<close> block after \<^verbatim>\<open>JSON.parse\<close>, on an object.\<close>

definition add_legacy_fields :: "string \<Rightarrow> llm_answer \<Rightarrow> answer_payload" where
  "add_legacy_fields query finalResponse =
     \<lparr>Decision = or_default (decision finalResponse) ''requires_more_info'',
      Amount = (if isMoneyQuestion query
                then extractAmount (js_string (answer finalResponse) @ '' ''
                                      @ js_string (reasoning finalResponse))
                else None),
      Justification = or_default (reasoning finalResponse)
                        ''Response generated based on policy documents'',
      model_answer = finalResponse\<rparr>"

definition try_block :: "string \<Rightarrow> llm_outcome \<Rightarrow> js_error + answer_payload" where
  "try_block query outcome =
     (case outcome of
        HttpError status \<Rightarrow> Inl NetworkError
      | Timeout \<Rightarrow> Inl NetworkError
      | NoCandidateText \<Rightarrow> Inl TypeError
      | ParseFailure \<Rightarrow> Inl SyntaxError
      | Parsed JsonNull \<Rightarrow> Inl TypeError
      | Parsed (JsonObject finalResponse) \<Rightarrow> Inr (add_legacy_fields query finalResponse))"

definition fallbackResponse :: answer_payload where
  "fallbackResponse =
     \<lparr>Decision = ''requires_more_info'',
      Amount = None,
      Justification = ''Technical error occurred while analyzing policy documents.'',
      model_answer = \<lparr>answer = Some ''Unable to process query at this time. Please try again.'',
                decision = Some ''requires_more_info'',
                reasoning = Some ''Technical error occurred while analyzing policy documents.'',
                relevant_clauses = Some [],
                limitations = Some ''Service temporarily unavailable'',
                confidence = Some ''low''\<rparr>\<rparr>"

text \<open>The \<^verbatim>\<open>try\<close> with its \<^verbatim>\<open>catch\<close>: the value of \<^verbatim>\<open>finalResponse\<close> after it.\<close>

definition synthesize :: "string \<Rightarrow> llm_outcome \<Rightarrow> answer_payload" where
  "synthesize query outcome =
     (case try_block query outcome of
        Inl e \<Rightarrow> fallbackResponse
      | Inr finalResponse \<Rightarrow> finalResponse)"

text \<open>
  The outcomes on which a statement of the \<^verbatim>\<open>try\<close> block throws: the request
  fails, the reply has no text, \<^verbatim>\<open>JSON.parse\<close> throws, or the parsed value is
  \<^verbatim>\<open>null\<close> and setting a field on it throws.
\<close>

fun call_throws :: "llm_outcome \<Rightarrow> bool" where
  "call_throws (HttpError status) = True"
| "call_throws Timeout = True"
| "call_throws NoCandidateText = True"
| "call_throws ParseFailure = True"
| "call_throws (Parsed JsonNull) = True"
| "call_throws (Parsed (JsonObject finalResponse)) = False"

text \<open>
  The failures of the call as section 4.7 of the specification lists them: HTTP error,
  timeout, JSON parse failure, missing required field. The required fields are those of the
  shape \<^verbatim>\<open>{answer, decision, reasoning, relevant_clauses, limitations, confidence}\<close>
  that the model is told to answer in; a reply without text and the value \<^verbatim>\<open>null\<close>
  have none of them.
\<close>

definition missing_required_field :: "llm_answer \<Rightarrow> bool" where
  "missing_required_field a =
     (answer a = None \<or> decision a = None \<or> reasoning a = None
      \<or> relevant_clauses a = None \<or> limitations a = None \<or> confidence a = None)"

fun llm_failed :: "llm_outcome \<Rightarrow> bool" where
  "llm_failed (HttpError status) = True"
| "llm_failed Timeout = True"
| "llm_failed NoCandidateText = True"
| "llm_failed ParseFailure = True"
| "llm_failed (Parsed JsonNull) = True"
| "llm_failed (Parsed (JsonObject a)) = missing_required_field a"

section \<open>Deleting a document\<close>

text \<open>An entry of \<^verbatim>\<open>documentRegistry\<close>.\<close>

record registry_entry =
  reg_id :: string
  reg_name :: string
  reg_type :: string
  reg_size :: nat
  reg_uploadedAt :: string
  reg_path :: string
  reg_isSystemDocument :: bool
  reg_cachedContent :: string

text \<open>
  The uploads directory: the paths that exist, and among them those that
  \<^verbatim>\<open>fs.unlinkSync\<close> cannot remove (it throws).
\<close>

record disk =
  files :: "string set"
  undeletable :: "string set"

record server_state =
  isRAGInitialized :: bool
  documentRegistry :: "registry_entry list"
  indexedDocuments :: "indexed_doc list"
  uploads :: disk
  retrievalSettings :: retrieval_settings

definition unlinkSync :: "disk \<Rightarrow> string \<Rightarrow> js_error + disk" where
  "unlinkSync d p =
     (if p \<in> files d \<and> p \<notin> undeletable d then Inr (d\<lparr>files := files d - {p}\<rparr>)
      else Inl IOError)"

text \<open>\<^verbatim>\<open>xs.findIndex(p)\<close>, with \<^term>\<open>None\<close> for \<open>-1\<close>.\<close>

fun findIndex :: "('a \<Rightarrow> bool) \<Rightarrow> 'a list \<Rightarrow> nat option" where
  "findIndex p [] = None"
| "findIndex p (x # xs) =
     (if p x then Some 0 else case findIndex p xs of None \<Rightarrow> None | Some i \<Rightarrow> Some (Suc i))"

text \<open>\<^verbatim>\<open>xs.splice(index, 1)\<close>\<close>

definition splice1 :: "nat \<Rightarrow> 'a list \<Rightarrow> 'a list" where
  "splice1 index xs = take index xs @ drop (Suc index) xs"

datatype delete_response =
    NotFound
  | Forbidden
  | Deleted
  | DeleteFailed

text \<open>
  The handler of \<^verbatim>\<open>DELETE /documents/:id\<close>: status 404 is \<^const>\<open>NotFound\<close>, the
  refusal for a system document (status 400) is \<^const>\<open>Forbidden\<close>, status 500 from the
  \<^verbatim>\<open>catch\<close> is \<^const>\<open>DeleteFailed\<close>.
\<close>

definition delete_document :: "server_state \<Rightarrow> string \<Rightarrow> delete_response \<times> server_state" where
  "delete_document s ident =
     (case findIndex (\<lambda>d. reg_id d = ident) (documentRegistry s) of
        None \<Rightarrow> (NotFound, s)
      | Some index \<Rightarrow>
          (let doc = documentRegistry s ! index
           in if reg_isSystemDocument doc then (Forbidden, s)
              else
                (case (if reg_path doc \<noteq> [] \<and> reg_path doc \<in> files (uploads s)
                       then unlinkSync (uploads s) (reg_path doc)
                       else Inr (uploads s)) of
                   Inl e \<Rightarrow> (DeleteFailed, s)
                 | Inr uploads' \<Rightarrow>
                     (Deleted,
                      s\<lparr>uploads := uploads',
                        documentRegistry := splice1 index (documentRegistry s),
                        indexedDocuments :=
                          filter (\<lambda>d. case doc_meta d of None \<Rightarrow> True | Some m \<Rightarrow> docId m \<noteq> ident)
                            (indexedDocuments s)\<rparr>))))"

section \<open>The retrieval settings and the query handler\<close>

text \<open>
  The body of \<^verbatim>\<open>POST /retrieval-settings\<close>: \<^verbatim>\<open>includeSystemDocuments\<close> counts when
  it is a boolean; \<^verbatim>\<open>allowedDocIds\<close> is absent, \<^verbatim>\<open>null\<close> or an array of ids.
\<close>

datatype allowed_arg = Absent | Null | Ids "string list"

record settings_body =
  body_includeSystemDocuments :: "bool option"
  body_allowedDocIds :: allowed_arg

definition post_retrieval_settings :: "server_state \<Rightarrow> settings_body \<Rightarrow> server_state" where
  "post_retrieval_settings s body =
     s\<lparr>retrievalSettings :=
         \<lparr>includeSystemDocuments =
            (case body_includeSystemDocuments body of
               Some b \<Rightarrow> b
             | None \<Rightarrow> includeSystemDocuments (retrievalSettings s)),
          allowedDocIds =
            (case body_allowedDocIds body of
               Ids ids \<Rightarrow> Some (set ids)
             | Null \<Rightarrow> None
             | Absent \<Rightarrow> allowedDocIds (retrievalSettings s))\<rparr>\<rparr>"

text \<open>
  The handler of \<^verbatim>\<open>POST /process-query\<close>. The language model is a function of the
  context and the question that the prompt is built from. The structured query of step 1
  is computed and not used, and the history is left out.
\<close>

definition noDocumentsResponse :: answer_payload where
  "noDocumentsResponse =
     \<lparr>Decision = ''requires_more_info'',
      Amount = None,
      Justification = ''No documents available for analysis. Please upload your policy documents first.'',
      model_answer =
        \<lparr>answer = Some ''No documents have been uploaded yet. Please upload your policy documents first to get answers to your questions.'',
         decision = Some ''requires_more_info'',
         reasoning = Some ''The system needs documents to analyze before it can answer questions.'',
         relevant_clauses = Some [],
         limitations = Some ''Upload policy documents to enable AI analysis.'',
         confidence = Some ''low''\<rparr>\<rparr>"

datatype query_response = ServiceUnavailable | BadRequest | Answer answer_payload

definition process_query ::
  "server_state \<Rightarrow> embedder \<Rightarrow> (string \<Rightarrow> string \<Rightarrow> llm_outcome) \<Rightarrow> string \<Rightarrow> query_response" where
  "process_query s embedder llm query =
     (if \<not> isRAGInitialized s then ServiceUnavailable
      else if query = [] then BadRequest
      else
        (let results = searchResults (retrievalSettings s) embedder (indexedDocuments s) query;
             context = context_of results
         in if list_all is_space context then Answer noDocumentsResponse
            else Answer (synthesize query (llm context query))))"

section \<open>The chunker\<close>

text \<open>
  Modelled from the spec: the splitting done by \<^verbatim>\<open>textSplitter.splitDocuments\<close>. The
  server only configures a \<^verbatim>\<open>RecursiveCharacterTextSplitter\<close> of the langchain
  library with \<^verbatim>\<open>chunkSize: 1000, chunkOverlap: 200\<close>; the splitting code is not part
  of the sources. Section 4.3 of the specification describes a fixed-size sliding window
  over the raw characters: windows of the window size, each starting \<open>window - overlap\<close>
  characters after the one before, the last one possibly shorter.
\<close>

function sliding_windows :: "nat \<Rightarrow> nat \<Rightarrow> string \<Rightarrow> string list" where
  "sliding_windows window overlap text =
     (if text = [] then []
      else if length text \<le> window \<or> window \<le> overlap then [text]
      else take window text # sliding_windows window overlap (drop (window - overlap) text))"
  by pat_completeness auto
termination
  by (relation "measure (\<lambda>(window, overlap, text). length text)") auto

declare sliding_windows.simps [simp del]

definition chunkSize :: nat where
  "chunkSize = 1000"

definition chunkOverlap :: nat where
  "chunkOverlap = 200"

definition splitText :: "string \<Rightarrow> string list" where
  "splitText text = sliding_windows chunkSize chunkOverlap text"

text \<open>Concatenation of the chunks with their overlaps removed.\<close>

fun remove_overlaps :: "nat \<Rightarrow> string list \<Rightarrow> string" where
  "remove_overlaps overlap [] = []"
| "remove_overlaps overlap (c # cs) = c @ concat (map (drop overlap) cs)"

section \<open>Example inputs\<close>


text \<open>A registry with an uploaded document and a system document, both indexed.\<close>

definition policy_txt :: registry_entry where
  "policy_txt =
     \<lparr>reg_id = ''1'', reg_name = ''policy.txt'', reg_type = ''text/plain'', reg_size = 14,
      reg_uploadedAt = ''2024-01-01T00:00:00.000Z'', reg_path = ''uploads/1-policy.txt'',
      reg_isSystemDocument = False, reg_cachedContent = ''waiting period''\<rparr>"

definition system_txt :: registry_entry where
  "system_txt =
     \<lparr>reg_id = ''2'', reg_name = ''system.txt'', reg_type = ''text/plain'', reg_size = 5,
      reg_uploadedAt = ''2024-01-01T00:00:00.000Z'', reg_path = ''uploads/2-system.txt'',
      reg_isSystemDocument = True, reg_cachedContent = ''rules''\<rparr>"

definition example_state :: server_state where
  "example_state =
     \<lparr>isRAGInitialized = True,
      documentRegistry = [policy_txt, system_txt],
      indexedDocuments =
        [\<lparr>content = ''waiting period'', embedding = [1, 0],
          doc_meta = Some \<lparr>source = ''uploads/1-policy.txt'', docId = ''1'', isSystemDocument = False\<rparr>\<rparr>,
         \<lparr>content = ''rules'', embedding = [0, 1],
          doc_meta = Some \<lparr>source = ''uploads/2-system.txt'', docId = ''2'', isSystemDocument = True\<rparr>\<rparr>],
      uploads = \<lparr>files = {''uploads/1-policy.txt'', ''uploads/2-system.txt''}, undeletable = {}\<rparr>,
      retrievalSettings = \<lparr>includeSystemDocuments = True, allowedDocIds = None\<rparr>\<rparr>"

text \<open>
  Two uploaded documents, indexed with the fallback embedding, and the state after the
  client focuses retrieval on document 1.
\<close>

definition two_documents :: server_state where
  "two_documents =
     \<lparr>isRAGInitialized = True,
      documentRegistry = [],
      indexedDocuments =
        addDocuments None []
          [\<lparr>pageContent = ''waiting period'',
            metadata = Some \<lparr>source = ''uploads/1-policy.txt'', docId = ''1'',
                             isSystemDocument = False\<rparr>\<rparr>,
           \<lparr>pageContent = ''payout limits'',
            metadata = Some \<lparr>source = ''uploads/2-limits.txt'', docId = ''2'',
                             isSystemDocument = False\<rparr>\<rparr>],
      uploads = \<lparr>files = {''uploads/1-policy.txt'', ''uploads/2-limits.txt''}, undeletable = {}\<rparr>,
      retrievalSettings = \<lparr>includeSystemDocuments = True, allowedDocIds = None\<rparr>\<rparr>"

definition focus_on_1 :: server_state where
  "focus_on_1 =
     post_retrieval_settings two_documents
       \<lparr>body_includeSystemDocuments = Some False, body_allowedDocIds = Ids [''1'']\<rparr>"

text \<open>
  An answer of the language model without the fields \<^verbatim>\<open>answer\<close>,
  \<^verbatim>\<open>relevant_clauses\<close>, \<^verbatim>\<open>limitations\<close> and \<^verbatim>\<open>confidence\<close>.
\<close>

definition partial_answer :: llm_answer where
  "partial_answer =
     \<lparr>answer = None,
      decision = Some ''approved'',
      reasoning = Some ''Up to 100 USD'',
      relevant_clauses = None,
      limitations = None,
      confidence = None\<rparr>"

text \<open>An answer of the language model that states an amount of zero.\<close>

definition zero_payout_answer :: llm_answer where
  "zero_payout_answer =
     \<lparr>answer = Some ''The payout is $0 during the waiting period.'',
      decision = Some ''rejected'',
      reasoning = Some ''Clause 4 sets a waiting period of 6 months.'',
      relevant_clauses = Some [''Clause 4''],
      limitations = Some ''None'',
      confidence = Some ''high''\<rparr>"

section \<open>Properties of the embedding fallback\<close>

lemma toInt32_mod: "toInt32 x mod 2 ^ 32 = x mod 2 ^ 32"
proof -
  have "toInt32 x mod 2 ^ 32 = ((x + 2 ^ 31) mod 2 ^ 32 - 2 ^ 31) mod 2 ^ 32"
    by (simp add: toInt32_def)
  also have "\<dots> = (x + 2 ^ 31 - 2 ^ 31) mod 2 ^ 32"
    by (rule mod_diff_left_eq)
  finally show ?thesis by simp
qed

lemma toInt32_range: "- (2 ^ 31) \<le> toInt32 x \<and> toInt32 x < 2 ^ 31"
proof -
  have "0 \<le> (x + 2 ^ 31) mod (2 ^ 32 :: int)" "(x + 2 ^ 31) mod (2 ^ 32 :: int) < 2 ^ 32"
    by simp_all
  then show ?thesis by (simp add: toInt32_def)
qed

lemma hash_step_mod: "hash_step a c mod 2 ^ 32 = (a * 31 + of_char c) mod 2 ^ 32"
proof -
  have "hash_step a c mod 2 ^ 32 = (toInt32 (a * 32) - a + of_char c) mod 2 ^ 32"
    by (simp only: hash_step_def Let_def toInt32_mod)
  also have "toInt32 (a * 32) - a + of_char c = toInt32 (a * 32) + (of_char c - a)"
    by simp
  also have "(toInt32 (a * 32) + (of_char c - a)) mod 2 ^ 32
               = (toInt32 (a * 32) mod 2 ^ 32 + (of_char c - a)) mod 2 ^ 32"
    by (rule mod_add_left_eq [symmetric])
  also have "\<dots> = ((a * 32) mod 2 ^ 32 + (of_char c - a)) mod 2 ^ 32"
    by (simp only: toInt32_mod)
  also have "\<dots> = (a * 32 + (of_char c - a)) mod 2 ^ 32"
    by (rule mod_add_left_eq)
  also have "a * 32 + (of_char c - a) = a * 31 + of_char c"
    by simp
  finally show ?thesis .
qed

lemma hash_step_range: "- (2 ^ 31) \<le> hash_step a c \<and> hash_step a c < 2 ^ 31"
  by (simp only: hash_step_def Let_def toInt32_range)

lemma foldl_hash_mod:
  "foldl hash_step a t mod 2 ^ 32
     = foldl (\<lambda>h c. (h * 31 + of_char c) mod 2 ^ 32) (a mod 2 ^ 32) t"
proof (induction t arbitrary: a)
  case Nil
  show ?case by simp
next
  case (Cons c cs)
  have "((a mod 2 ^ 32) * 31 + of_char c) mod 2 ^ 32 = (a * 31 + of_char c) mod (2 ^ 32 :: int)"
    by (metis mod_add_left_eq mod_mult_left_eq)
  then show ?case
    using Cons.IH [of "hash_step a c"] hash_step_mod [of a c] by simp
qed

lemma fallbackHash_rolling: "fallbackHash t mod 2 ^ 32 = rolling_hash t"
  using foldl_hash_mod [of 0 t] by (simp add: fallbackHash_def rolling_hash_def)

lemma foldl_hash_range:
  "- (2 ^ 31) \<le> a \<Longrightarrow> a < 2 ^ 31 \<Longrightarrow>
   - (2 ^ 31) \<le> foldl hash_step a t \<and> foldl hash_step a t < 2 ^ 31"
proof (induction t arbitrary: a)
  case Nil
  then show ?case by simp
next
  case (Cons c cs)
  show ?case
    using Cons.IH [of "hash_step a c"] hash_step_range [of a c] by simp
qed

lemma fallbackHash_range: "- (2 ^ 31) \<le> fallbackHash t \<and> fallbackHash t < 2 ^ 31"
  using foldl_hash_range [of 0 t] by (simp add: fallbackHash_def)

lemma embedQuery_fails:
  "model_fails embedder t \<Longrightarrow> embedQuery embedder t = fallbackEmbedding t"
  by (cases embedder) (auto simp: embedQuery_def split: sum.splits)

lemma fallbackEmbedding_length: "length (fallbackEmbedding t) = 384"
  by (simp add: fallbackEmbedding_def)

lemma fallbackEmbedding_nth:
  "i < 384 \<Longrightarrow> fallbackEmbedding t ! i = sin (real_of_int (fallbackHash t) + real i) * 0.1"
  by (simp add: fallbackEmbedding_def Let_def)

text \<open>
  C3. When the primary model is not loaded or throws on the text, \<open>embedQuery\<close> gives the
  pseudo-embedding and no error: 384 entries, entry \<open>i\<close> being \<open>sin (h + i) * 0.1\<close>,
  where \<open>h\<close> is the rolling hash of the characters, a signed 32-bit integer congruent
  modulo \<open>2^32\<close> to the hash \<open>hash*31 + charCode\<close> of the specification. Two failing
  calls on one text give the same vector.
\<close>

theorem embedQuery_fallback:
  "model_fails embedder t \<longrightarrow>
     embedQuery embedder t = fallbackEmbedding t
     \<and> length (embedQuery embedder t) = 384
     \<and> (\<forall>i<384. embedQuery embedder t ! i = sin (real_of_int (fallbackHash t) + real i) * 0.1)
     \<and> - (2 ^ 31) \<le> fallbackHash t \<and> fallbackHash t < 2 ^ 31
     \<and> fallbackHash t mod 2 ^ 32 = rolling_hash t
     \<and> (\<forall>embedder'. model_fails embedder' t \<longrightarrow> embedQuery embedder' t = embedQuery embedder t)"
  using fallbackHash_range [of t] fallbackHash_rolling [of t]
  by (simp add: embedQuery_fails fallbackEmbedding_length fallbackEmbedding_nth)

lemma fallbackHash_example:
  "fallbackHash ''hello world'' = 1794106052"
  "fallbackHash ''payout limits'' = - 1074810926"
  "rolling_hash ''payout limits'' = 3220156370"
  by (simp_all add: fallbackHash_def rolling_hash_def hash_step_def toInt32_def)

theorem embedQuery_fallback_witness:
  "model_fails None ''payout limits''
   \<and> model_fails (Some (\<lambda>t. Inl NetworkError)) ''payout limits''
   \<and> length (embedQuery None ''payout limits'') = 384
   \<and> embedQuery None ''payout limits'' ! 2 = sin (- 1074810924) * 0.1
   \<and> fallbackHash ''payout limits'' mod 2 ^ 32 = rolling_hash ''payout limits''
   \<and> embedQuery (Some (\<lambda>t. Inl NetworkError)) ''payout limits''
       = embedQuery None ''payout limits''"
proof -
  have fails: "model_fails None ''payout limits''"
    "model_fails (Some (\<lambda>t. Inl NetworkError)) ''payout limits''"
    by simp_all
  from embedQuery_fallback [of None "''payout limits''"] fails(1)
  have len: "length (embedQuery None ''payout limits'') = 384"
    and nth: "\<forall>i<384. embedQuery None ''payout limits'' ! i
                = sin (real_of_int (fallbackHash ''payout limits'') + real i) * 0.1"
    and hash: "fallbackHash ''payout limits'' mod 2 ^ 32 = rolling_hash ''payout limits''"
    and same: "\<forall>embedder'. model_fails embedder' ''payout limits''
                \<longrightarrow> embedQuery embedder' ''payout limits'' = embedQuery None ''payout limits''"
    by blast+
  from nth have "embedQuery None ''payout limits'' ! 2
                   = sin (real_of_int (fallbackHash ''payout limits'') + real 2) * 0.1"
    by simp
  then have "embedQuery None ''payout limits'' ! 2 = sin (- 1074810924) * 0.1"
    by (simp add: fallbackHash_example)
  with fails len hash same show ?thesis by blast
qed

section \<open>Properties of the arithmetic on doubles\<close>

text \<open>Rounding to an integer.\<close>

lemma round_even_eq:
  assumes "of_int n - 1 / 2 < x" "x < of_int n + 1 / 2"
  shows "round_even x = n"
proof (cases "of_int n \<le> x")
  case True
  then have "\<lfloor>x\<rfloor> = n" using assms by linarith
  then show ?thesis using assms by (simp add: round_even_def Let_def)
next
  case False
  then have "\<lfloor>x\<rfloor> = n - 1" using assms by linarith
  then show ?thesis using assms False by (simp add: round_even_def Let_def)
qed

lemma round_even_of_int: "round_even (of_int n) = n"
  by (rule round_even_eq) simp_all

lemma round_even_ge: "of_int m \<le> x \<Longrightarrow> m \<le> round_even x"
proof -
  assume "of_int m \<le> x"
  then have "m \<le> \<lfloor>x\<rfloor>" by (simp add: le_floor_iff)
  then show ?thesis by (simp add: round_even_def Let_def)
qed

lemma round_even_le: "x \<le> of_int m \<Longrightarrow> round_even x \<le> m"
proof -
  assume le: "x \<le> of_int m"
  show ?thesis
  proof (cases "x = of_int m")
    case True
    then show ?thesis by (simp add: round_even_of_int)
  next
    case False
    with le have "x < of_int m" by simp
    then have "\<lfloor>x\<rfloor> < m" by (simp add: floor_less_iff)
    then show ?thesis by (simp add: round_even_def Let_def)
  qed
qed

lemma binade_eq:
  assumes "2 powr of_int e \<le> \<bar>x\<bar>" "\<bar>x\<bar> < 2 powr (of_int e + 1)" "- 1022 \<le> e"
  shows "binade x = e"
proof -
  have pos: "0 < \<bar>x\<bar>" using assms(1) powr_gt_zero [of 2 "of_int e"] by linarith
  have "of_int e \<le> log 2 \<bar>x\<bar>" using assms(1) pos by (simp add: le_log_iff)
  moreover have "log 2 \<bar>x\<bar> < of_int e + 1" using assms(2) pos by (simp add: log_less_iff)
  ultimately have "\<lfloor>log 2 \<bar>x\<bar>\<rfloor> = e" by linarith
  then show ?thesis using assms(3) by (simp add: binade_def)
qed

text \<open>
  A number of the binade \<open>e\<close> rounds to the multiple of \<open>2\<^sup>e\<^sup>-\<^sup>5\<^sup>2\<close> that \<open>round_even\<close>
  picks; the two lemmas after it are the cases \<open>e = 0\<close> and \<open>e = 1\<close>.
\<close>

lemma round_double_eq:
  assumes "2 powr of_int e \<le> \<bar>x\<bar>" "\<bar>x\<bar> < 2 powr (of_int e + 1)" "- 1022 \<le> e"
    and "u = 2 powr (of_int e - 52)"
    and "round_even (x / u) = n"
    and "\<bar>of_int n * u\<bar> < 2 powr 1024"
  shows "round_double x = Finite (of_int n * u)"
proof -
  have "x \<noteq> 0" using assms(1) powr_gt_zero [of 2 "of_int e"] by auto
  moreover have "binade x = e" using assms(1-3) by (rule binade_eq)
  ultimately show ?thesis
    using assms(4-6) by (simp add: round_double_def Let_def abs_less_iff)
qed

lemma round_double_0: "round_double 0 = Finite 0"
  by (simp add: round_double_def)

lemma round_double_unit:
  assumes "1 \<le> x" "x < 2" "round_even (x * 2 ^ 52) = n"
  shows "round_double x = Finite (of_int n / 2 ^ 52)"
proof -
  have "n \<le> 2 ^ 53"
    using round_even_le [of "x * 2 ^ 52" "2 ^ 53"] assms by simp
  moreover have "0 \<le> n"
    using round_even_ge [of 0 "x * 2 ^ 52"] assms by simp
  ultimately have small: "\<bar>of_int n * (1 / 2 ^ 52)\<bar> \<le> (2 :: real)"
    by (simp add: abs_mult field_simps)
  have "(2 :: real) < 2 powr 1024"
    using powr_less_mono [of 1 1024 "2 :: real"] by simp
  with small have bound: "\<bar>of_int n * (1 / 2 ^ 52)\<bar> < (2 :: real) powr 1024"
    by linarith
  have "round_double x = Finite (of_int n * (1 / 2 ^ 52))"
  proof (rule round_double_eq [where e = 0])
    show "(1 / 2 ^ 52 :: real) = 2 powr (of_int 0 - 52)"
      by (simp add: powr_minus_divide)
    show "round_even (x / (1 / 2 ^ 52)) = n"
      using assms(3) by simp
    show "\<bar>of_int n * (1 / 2 ^ 52)\<bar> < (2 :: real) powr 1024"
      by (rule bound)
  qed (use assms in simp_all)
  then show ?thesis by simp
qed

lemma round_double_two:
  assumes "2 \<le> x" "x < 4" "round_even (x * 2 ^ 51) = n"
  shows "round_double x = Finite (of_int n / 2 ^ 51)"
proof -
  have "n \<le> 2 ^ 53"
    using round_even_le [of "x * 2 ^ 51" "2 ^ 53"] assms by simp
  moreover have "0 \<le> n"
    using round_even_ge [of 0 "x * 2 ^ 51"] assms by simp
  ultimately have small: "\<bar>of_int n * (1 / 2 ^ 51)\<bar> \<le> (4 :: real)"
    by (simp add: abs_mult field_simps)
  have "(4 :: real) < 2 powr 1024"
    using powr_less_mono [of 2 1024 "2 :: real"] by simp
  with small have bound: "\<bar>of_int n * (1 / 2 ^ 51)\<bar> < (2 :: real) powr 1024"
    by linarith
  have "round_double x = Finite (of_int n * (1 / 2 ^ 51))"
  proof (rule round_double_eq [where e = 1])
    show "(1 / 2 ^ 51 :: real) = 2 powr (of_int 1 - 52)"
      by (simp add: powr_minus_divide)
    show "round_even (x / (1 / 2 ^ 51)) = n"
      using assms(3) by simp
    show "\<bar>of_int n * (1 / 2 ^ 51)\<bar> < (2 :: real) powr 1024"
      by (rule bound)
  qed (use assms in simp_all)
  then show ?thesis by simp
qed

lemma round_double_1: "round_double 1 = Finite 1"
  using round_double_unit [of 1 "2 ^ 52"] round_even_of_int [of "2 ^ 52"] by simp

lemma round_double_2: "round_double 2 = Finite 2"
  using round_double_two [of 2 "2 ^ 52"] round_even_of_int [of "2 ^ 52"] by simp

lemma round_double_3: "round_double 3 = Finite 3"
  using round_double_two [of 3 "3 * 2 ^ 51"] round_even_of_int [of "3 * 2 ^ 51"] by simp

text \<open>Every result of an operation is a double.\<close>

lemma is_double_round: "is_double (round_double x)"
proof (cases "x = 0")
  case True
  then show ?thesis by (simp add: round_double_def is_double_def)
next
  case False
  define e where "e = binade x"
  define u :: real where "u = 2 powr (of_int e - 52)"
  define n where "n = round_even (x / u)"
  define j where "j = e + 1022"
  have "0 \<le> j" by (simp add: j_def e_def binade_def)
  then have "2 powr real_of_int j = of_int (2 ^ nat j)"
    by (simp add: powr_real_of_int)
  moreover have "of_int e - 52 = real_of_int j + (- 1074)"
    by (simp add: j_def)
  then have "u = 2 powr real_of_int j * 2 powr (- 1074)"
    unfolding u_def by (simp only: powr_add)
  ultimately have "of_int n * u = of_int (n * 2 ^ nat j) * 2 powr (- 1074)"
    by simp
  then have "is_double (Finite (of_int n * u))"
    unfolding is_double_def by (simp only: jsnum.case) (rule exI [of _ "n * 2 ^ nat j"], rule refl)
  then show ?thesis
    using False by (simp add: round_double_def is_double_def Let_def e_def u_def n_def)
qed

lemma is_double_zero: "is_double (Finite 0)"
  unfolding is_double_def by (simp only: jsnum.case) (rule exI [of _ 0], simp)

lemma is_double_least:
  assumes "is_double (Finite r)" "0 < r"
  shows "2 powr (- 1074) \<le> r"
proof -
  obtain n :: int where r: "r = of_int n * 2 powr (- 1074)"
    using assms(1) by (auto simp add: is_double_def)
  have c: "(0 :: real) < 2 powr (- 1074)" by simp
  have "0 < real_of_int n"
    using assms(2) c unfolding r by (simp only: zero_less_mult_pos2)
  then have "1 \<le> n" by simp
  then have "1 \<le> real_of_int n" by simp
  then have "1 * 2 powr (- 1074) \<le> real_of_int n * 2 powr (- 1074)"
    using c by (intro mult_right_mono) simp_all
  then show ?thesis by (simp only: r mult_1)
qed

lemma is_double_fadd: "is_double (fadd u v)"
  by (cases u; cases v) (simp_all add: is_double_round, simp_all add: is_double_def)


text \<open>
  Rounding does not go below a power of two that the number is not below, and it does not
  change the sign of a number that is not closer to 0 than the least positive double.
\<close>

lemma round_double_ge:
  assumes "2 powr of_int k \<le> x" "- 1074 \<le> k"
  shows "round_double x = PosInfinity \<or> (\<exists>y. round_double x = Finite y \<and> 2 powr of_int k \<le> y)"
proof -
  have x: "0 < x" using assms(1) powr_gt_zero [of 2 "of_int k"] by linarith
  define e where "e = binade x"
  define u :: real where "u = 2 powr (of_int e - 52)"
  define n where "n = round_even (x / u)"
  have u: "0 < u" by (simp add: u_def)
  have "2 powr of_int k \<le> of_int n * u"
  proof (cases "e - 52 \<le> k")
    case True
    define j where "j = k - (e - 52)"
    define m :: int where "m = 2 ^ nat j"
    have "0 \<le> j" using True by (simp add: j_def)
    then have m: "2 powr real_of_int j = of_int m"
      by (simp add: m_def powr_real_of_int)
    have "real_of_int k = of_int j + (of_int e - 52)"
      by (simp add: j_def)
    then have "2 powr of_int k = 2 powr of_int j * u"
      unfolding u_def by (simp only: powr_add)
    then have k: "2 powr of_int k = of_int m * u"
      by (simp only: m)
    then have "of_int m \<le> x / u"
      using assms(1) u by (simp add: pos_le_divide_eq)
    then have "m \<le> n" unfolding n_def by (rule round_even_ge)
    then have "of_int m * u \<le> of_int n * u"
      using u by simp
    then show ?thesis by (simp only: k)
  next
    case False
    then have "- 1022 < e" using assms(2) by simp
    then have e: "e = \<lfloor>log 2 \<bar>x\<bar>\<rfloor>"
      unfolding e_def binade_def by simp
    then have "of_int e \<le> log 2 x" using x by simp
    then have "2 powr of_int e \<le> x"
      using x by (simp add: le_log_iff)
    moreover have "2 powr of_int e = 2 ^ 52 * u"
    proof -
      have "2 powr of_int e = 2 powr (52 + (of_int e - 52))" by simp
      also have "\<dots> = 2 powr 52 * u" unfolding u_def by (rule powr_add)
      finally show ?thesis by simp
    qed
    ultimately have "of_int (2 ^ 52) \<le> x / u"
      using u by (simp add: pos_le_divide_eq)
    then have "2 ^ 52 \<le> n" unfolding n_def by (rule round_even_ge)
    then have "real_of_int (2 ^ 52) \<le> of_int n"
      by (simp only: of_int_le_iff)
    then have "2 ^ 52 * u \<le> of_int n * u"
      using mult_right_mono [of "2 ^ 52" "real_of_int n" u] u by simp
    moreover have "(2 :: real) powr of_int k \<le> 2 powr of_int e"
      using False by (intro powr_mono) simp_all
    ultimately show ?thesis
      using \<open>2 powr of_int e = 2 ^ 52 * u\<close> by linarith
  qed
  moreover from this have "\<not> of_int n * u \<le> - (2 powr 1024)"
    using powr_gt_zero [of 2 "of_int k"] powr_gt_zero [of 2 1024] by linarith
  then have "round_double x = PosInfinity \<or> round_double x = Finite (of_int n * u)"
    using x by (simp add: round_double_def Let_def e_def u_def n_def)
  ultimately show ?thesis by blast
qed

lemma round_double_overflow:
  assumes "2 powr 1024 \<le> x"
  shows "round_double x = PosInfinity"
proof -
  have "2 powr of_int 1024 \<le> x" using assms by simp
  then have "round_double x = PosInfinity
             \<or> (\<exists>y. round_double x = Finite y \<and> 2 powr of_int 1024 \<le> y)"
    by (rule round_double_ge) simp
  moreover have "y < 2 powr 1024" if "round_double x = Finite y" for y
    using that by (simp add: round_double_def Let_def del: powr_numeral split: if_splits)
  ultimately show ?thesis by fastforce
qed





text \<open>
  The square root of a positive double is at least \<open>2\<^sup>-\<^sup>5\<^sup>3\<^sup>7\<close>, and the product of two
  numbers that are at least \<open>2\<^sup>-\<^sup>5\<^sup>3\<^sup>7\<close> is not 0.
\<close>

lemma sqrt_least: "sqrt (2 powr (- 1074)) = 2 powr (- 537)"
proof -
  have "sqrt (2 powr (- 1074)) = (2 powr (- 1074)) powr (1 / 2)"
    by (simp add: powr_half_sqrt)
  also have "\<dots> = 2 powr (- 537)"
    by (simp only: powr_powr) simp
  finally show ?thesis .
qed

lemma fsqrt_above_root:
  assumes "is_double v" "v \<noteq> Finite 0"
  shows "above_root (fsqrt v)"
proof (cases v)
  case (Finite r)
  show ?thesis
  proof (cases "r < 0")
    case True
    with Finite show ?thesis by simp
  next
    case False
    with assms Finite have "2 powr (- 1074) \<le> r"
      by (intro is_double_least) simp_all
    then have "sqrt (2 powr (- 1074)) \<le> sqrt r"
      by (rule real_sqrt_le_mono)
    then have "2 powr of_int (- 537) \<le> sqrt r"
      by (simp add: sqrt_least)
    then have "round_double (sqrt r) = PosInfinity
               \<or> (\<exists>y. round_double (sqrt r) = Finite y \<and> 2 powr of_int (- 537) \<le> y)"
      by (rule round_double_ge) simp
    then show ?thesis
      using Finite False by auto
  qed
qed simp_all

lemma above_root_positive: "above_root (Finite s) \<Longrightarrow> 0 < s"
proof -
  assume "above_root (Finite s)"
  then have "2 powr (- 537) \<le> s" by simp
  moreover have "(0 :: real) < 2 powr (- 537)" by simp
  ultimately show ?thesis by linarith
qed

lemma fmul_above_root:
  assumes "above_root u" "above_root v"
  shows "fmul u v \<noteq> Finite 0"
proof (cases u)
  case u: (Finite s)
  show ?thesis
  proof (cases v)
    case v: (Finite t)
    have s: "2 powr (- 537) \<le> s" and t: "2 powr (- 537) \<le> t"
      using assms u v by simp_all
    have "2 powr (- 537) * 2 powr (- 537) \<le> s * t"
      using s t by (intro mult_mono') simp_all
    moreover have "(2 :: real) powr (- 537) * 2 powr (- 537) = 2 powr of_int (- 1074)"
      by (simp add: powr_add [symmetric])
    ultimately have "2 powr of_int (- 1074) \<le> s * t"
      by simp
    then have "round_double (s * t) = PosInfinity
               \<or> (\<exists>y. round_double (s * t) = Finite y \<and> 2 powr of_int (- 1074) \<le> y)"
      by (rule round_double_ge) simp
    moreover have "(0 :: real) < 2 powr of_int (- 1074)"
      by simp
    ultimately show ?thesis
      using u v by auto
  next
    case PosInfinity
    have "0 < s"
      using assms(1) u by (simp only: above_root_positive)
    with u PosInfinity show ?thesis by simp
  next
    case NegInfinity
    with assms show ?thesis by simp
  next
    case NaN
    with u show ?thesis by simp
  qed
next
  case u: PosInfinity
  show ?thesis
  proof (cases v)
    case (Finite t)
    have "0 < t"
      using assms(2) Finite by (simp only: above_root_positive)
    with u Finite show ?thesis by simp
  qed (use assms u in simp_all)
next
  case NegInfinity
  with assms show ?thesis by simp
next
  case NaN
  then show ?thesis by simp
qed

lemma fmul_commute: "fmul x y = fmul y x"
  by (cases x; cases y) (simp_all add: mult.commute)

section \<open>Properties of cosine similarity\<close>

text \<open>Symmetry, the zero vector, and the divisor.\<close>

lemma cosine_step_acc:
  "cosine_step a b (d, na, nb) i
   = (fadd d (fmul (Finite (a ! i)) (Finite (b ! i))),
      fadd na (fmul (Finite (a ! i)) (Finite (a ! i))),
      fadd nb (fmul (Finite (b ! i)) (Finite (b ! i))))"
  by (simp add: cosine_step_def)

lemma cosine_loop_swap:
  "foldl (cosine_step a b) (d, na, nb) is = (d', na', nb')
   \<Longrightarrow> foldl (cosine_step b a) (d, nb, na) is = (d', nb', na')"
  by (induction "is" arbitrary: d na nb) (simp_all add: cosine_step_def fmul_commute)

lemma cosineSimilarity_commute: "cosineSimilarity a b = cosineSimilarity b a"
proof (cases "length a = length b")
  case True
  obtain d na nb where sums: "cosine_sums a b = (d, na, nb)"
    by (cases "cosine_sums a b")
  then have "cosine_sums b a = (d, nb, na)"
    using True cosine_loop_swap [of a b "Finite 0" "Finite 0" "Finite 0" "[0..<length a]" d na nb]
    by (simp add: cosine_sums_def)
  with sums show ?thesis
    using True by (auto simp add: cosineSimilarity_def fmul_commute)
next
  case False
  then show ?thesis by (simp add: cosineSimilarity_def)
qed

lemma cosine_loop_zero_left:
  assumes "\<forall>x\<in>set a. x = 0" "\<forall>i\<in>set is. i < length a"
  shows "fst (snd (foldl (cosine_step a b) (d, Finite 0, nb) is)) = Finite 0"
  using assms(2)
proof (induction "is" arbitrary: d nb)
  case Nil
  show ?case by simp
next
  case (Cons i "is")
  then have "a ! i = 0" using assms(1) by simp
  then show ?case
    using Cons by (simp add: cosine_step_def round_double_0)
qed

lemma cosineSimilarity_zero_left:
  assumes "\<forall>x\<in>set a. x = 0"
  shows "cosineSimilarity a b = Finite 0"
proof -
  have "fst (snd (cosine_sums a b)) = Finite 0"
    unfolding cosine_sums_def using assms by (intro cosine_loop_zero_left) simp_all
  then show ?thesis
    by (cases "cosine_sums a b") (auto simp add: cosineSimilarity_def)
qed

lemma cosine_loop_doubles:
  assumes "is_double d" "is_double na" "is_double nb"
    and "foldl (cosine_step a b) (d, na, nb) is = (d', na', nb')"
  shows "is_double d' \<and> is_double na' \<and> is_double nb'"
  using assms
proof (induction "is" arbitrary: d na nb)
  case Nil
  then show ?case by simp
next
  case (Cons i "is")
  define x y z where "x = fmul (Finite (a ! i)) (Finite (b ! i))"
    and "y = fmul (Finite (a ! i)) (Finite (a ! i))"
    and "z = fmul (Finite (b ! i)) (Finite (b ! i))"
  have "foldl (cosine_step a b) (fadd d x, fadd na y, fadd nb z) is = (d', na', nb')"
    using Cons.prems(4) by (simp only: foldl_Cons cosine_step_acc x_def y_def z_def)
  with is_double_fadd is_double_fadd is_double_fadd show ?case
    by (rule Cons.IH)
qed

lemma cosine_sums_doubles:
  assumes "cosine_sums a b = (d, na, nb)"
  shows "is_double d \<and> is_double na \<and> is_double nb"
proof -
  have zero: "is_double (Finite 0)" by (rule is_double_zero)
  from zero zero zero assms [unfolded cosine_sums_def] show ?thesis
    by (rule cosine_loop_doubles)
qed

lemma divisor_nonzero:
  assumes "cosine_sums a b = (d, na, nb)" "na \<noteq> Finite 0" "nb \<noteq> Finite 0"
  shows "fmul (fsqrt na) (fsqrt nb) \<noteq> Finite 0"
  using cosine_sums_doubles [OF assms(1)] assms(2,3)
  by (intro fmul_above_root fsqrt_above_root) simp_all


text \<open>
  The similarity of \<open>[1, 1, 1]\<close> with itself: the nearest double to the square root of 3
  is \<open>7800463371553962 / 2\<^sup>5\<^sup>2\<close>, its square rounds to \<open>3 - 2\<^sup>-\<^sup>5\<^sup>1\<close>, and 3 divided by
  that rounds to \<open>1 + 2\<^sup>-\<^sup>5\<^sup>2\<close>.
\<close>

lemma sqrt_3_rounded: "fsqrt (Finite 3) = Finite (7800463371553962 / 2 ^ 52)"
proof -
  have eq: "sqrt 3 * 2 ^ 52 = sqrt (3 * 2 ^ 104)"
  proof -
    have "sqrt ((2 :: real) ^ 104) = 2 ^ 52"
      by (rule real_sqrt_unique) simp_all
    then show ?thesis by (simp only: real_sqrt_mult)
  qed
  have lower: "of_int 7800463371553962 - 1 / 2 < sqrt 3 * 2 ^ 52"
    unfolding eq by (rule real_less_rsqrt) (simp add: power2_eq_square)
  have upper: "sqrt 3 * 2 ^ 52 < of_int 7800463371553962 + 1 / 2"
    unfolding eq by (rule real_less_lsqrt) (simp_all add: power2_eq_square)
  have "round_even (sqrt 3 * 2 ^ 52) = 7800463371553962"
    using lower upper by (rule round_even_eq)
  moreover have "1 \<le> sqrt 3"
    by simp
  moreover have "sqrt 3 < 2"
    by (rule real_less_lsqrt) simp_all
  ultimately have "round_double (sqrt 3) = Finite (of_int 7800463371553962 / 2 ^ 52)"
    by (intro round_double_unit)
  then show ?thesis by simp
qed

lemma sqrt_3_squared:
  "fmul (Finite (7800463371553962 / 2 ^ 52)) (Finite (7800463371553962 / 2 ^ 52))
   = Finite (6755399441055743 / 2 ^ 51)"
proof -
  define x :: real where "x = (7800463371553962 / 2 ^ 52) * (7800463371553962 / 2 ^ 52)"
  have "round_even (x * 2 ^ 51) = 6755399441055743"
    by (rule round_even_eq) (simp_all add: x_def)
  moreover have "2 \<le> x" "x < 4"
    by (simp_all add: x_def)
  ultimately have "round_double x = Finite (of_int 6755399441055743 / 2 ^ 51)"
    by (intro round_double_two)
  then show ?thesis by (simp add: x_def)
qed

lemma three_by_rounded:
  "fdiv (Finite 3) (Finite (6755399441055743 / 2 ^ 51)) = Finite (4503599627370497 / 2 ^ 52)"
proof -
  define x :: real where "x = 3 / (6755399441055743 / 2 ^ 51)"
  have "round_even (x * 2 ^ 52) = 4503599627370497"
    by (rule round_even_eq) (simp_all add: x_def)
  moreover have "1 \<le> x" "x < 2"
    by (simp_all add: x_def)
  ultimately have "round_double x = Finite (of_int 4503599627370497 / 2 ^ 52)"
    by (intro round_double_unit)
  then show ?thesis by (simp add: x_def)
qed

lemma cosine_sums_ones: "cosine_sums [1, 1, 1] [1, 1, 1] = (Finite 3, Finite 3, Finite 3)"
proof -
  have "[0..<length [1 :: real, 1, 1]] = [0, 1, 2]"
    by (simp add: upt_rec)
  then show ?thesis
    by (simp add: cosine_sums_def cosine_step_def round_double_1 round_double_2 round_double_3)
qed

lemma cosineSimilarity_ones:
  "cosineSimilarity [1, 1, 1] [1, 1, 1] = Finite (4503599627370497 / 2 ^ 52)"
proof -
  have "cosineSimilarity [1, 1, 1] [1, 1, 1]
          = fdiv (Finite 3) (fmul (fsqrt (Finite 3)) (fsqrt (Finite 3)))"
    by (simp add: cosineSimilarity_def cosine_sums_ones del: fsqrt.simps fmul.simps fdiv.simps)
  then show ?thesis
    by (simp only: sqrt_3_rounded sqrt_3_squared three_by_rounded)
qed

text \<open>
  When the sums overflow, the result is \<^verbatim>\<open>NaN\<close>: for \<open>a = b = [2\<^sup>6\<^sup>0\<^sup>0]\<close> the three
  sums are infinite.
\<close>

lemma cosineSimilarity_overflow: "cosineSimilarity [2 ^ 600] [2 ^ 600] = NaN"
proof -
  have "(2 :: real) powr 1024 \<le> 2 ^ 600 * 2 ^ 600"
    by simp
  then have "round_double (2 ^ 600 * 2 ^ 600) = PosInfinity"
    by (rule round_double_overflow)
  then have "cosine_sums [2 ^ 600] [2 ^ 600] = (PosInfinity, PosInfinity, PosInfinity)"
    by (simp add: cosine_sums_def cosine_step_def)
  then show ?thesis
    by (simp add: cosineSimilarity_def)
qed

text \<open>
  In exact arithmetic the quotient is bounded by 1 in absolute value (the inequality of
  Cauchy and Schwarz).
\<close>

lemma norm_sq_nonneg: "0 \<le> norm_sq v"
  by (induction v) (simp_all add: norm_sq_def)

lemma cross_term:
  fixes d x y A B :: real
  assumes "d\<^sup>2 \<le> A * B" "0 \<le> A" "0 \<le> B"
  shows "2 * d * (x * y) \<le> A * y\<^sup>2 + B * x\<^sup>2"
proof -
  have "(2 * d * (x * y))\<^sup>2 = 4 * d\<^sup>2 * (x\<^sup>2 * y\<^sup>2)"
    by (simp add: power_mult_distrib)
  also have "\<dots> \<le> 4 * (A * B) * (x\<^sup>2 * y\<^sup>2)"
    using assms(1) by (intro mult_right_mono mult_left_mono) simp_all
  also have "\<dots> = 4 * (A * y\<^sup>2) * (B * x\<^sup>2)"
    by simp
  also have "\<dots> \<le> (A * y\<^sup>2 + B * x\<^sup>2)\<^sup>2"
  proof -
    define p q where "p = A * y\<^sup>2" and "q = B * x\<^sup>2"
    have "2 * p * q \<le> p\<^sup>2 + q\<^sup>2" by (rule sum_squares_bound)
    then have "4 * p * q \<le> (p + q)\<^sup>2" by (simp add: power2_sum)
    then show ?thesis by (simp add: p_def q_def)
  qed
  finally have "(2 * d * (x * y))\<^sup>2 \<le> (A * y\<^sup>2 + B * x\<^sup>2)\<^sup>2" .
  moreover have "0 \<le> A * y\<^sup>2 + B * x\<^sup>2"
    using assms(2,3) by simp
  ultimately show ?thesis
    by (rule power2_le_imp_le)
qed

lemma dot_sq_le:
  "length a = length b \<Longrightarrow> (dot a b)\<^sup>2 \<le> norm_sq a * norm_sq b"
proof (induction a b rule: list_induct2)
  case Nil
  show ?case by (simp add: dot_def norm_sq_def)
next
  case (Cons x xs y ys)
  have eq: "dot (x # xs) (y # ys) = dot xs ys + x * y"
    "norm_sq (x # xs) = norm_sq xs + x\<^sup>2" "norm_sq (y # ys) = norm_sq ys + y\<^sup>2"
    by (simp_all add: dot_def norm_sq_def power2_eq_square)
  have "2 * dot xs ys * (x * y) \<le> norm_sq xs * y\<^sup>2 + norm_sq ys * x\<^sup>2"
    by (rule cross_term [OF Cons.IH norm_sq_nonneg norm_sq_nonneg])
  then have "(dot xs ys + x * y)\<^sup>2 \<le> (norm_sq xs + x\<^sup>2) * (norm_sq ys + y\<^sup>2)"
    using Cons.IH by (simp add: power2_sum algebra_simps power_mult_distrib)
  then show ?case by (simp only: eq)
qed

lemma abs_dot_le:
  assumes "length a = length b"
  shows "\<bar>dot a b\<bar> \<le> sqrt (norm_sq a) * sqrt (norm_sq b)"
proof -
  have "sqrt ((dot a b)\<^sup>2) \<le> sqrt (norm_sq a * norm_sq b)"
    using dot_sq_le [OF assms] by (rule real_sqrt_le_mono)
  then show ?thesis by (simp add: real_sqrt_mult)
qed

lemma exact_cosine_bounds:
  assumes "length a = length b"
  shows "\<bar>exact_cosine a b\<bar> \<le> 1"
proof -
  define D where "D = sqrt (norm_sq a) * sqrt (norm_sq b)"
  have "0 \<le> D"
    using norm_sq_nonneg [of a] norm_sq_nonneg [of b] by (simp add: D_def)
  moreover have "\<bar>dot a b\<bar> \<le> D"
    unfolding D_def using assms by (rule abs_dot_le)
  ultimately have "\<bar>dot a b / D\<bar> \<le> 1"
    by (cases "D = 0") simp_all
  then show ?thesis
    by (simp only: exact_cosine_def D_def)
qed

text \<open>
  C4 (as amended). Cosine similarity of two vectors of finite numbers is symmetric. It is
  0 when the lengths differ, when a squared norm that the loop computes is 0, and so when
  all entries of a vector are 0. Where the function divides, the divisor is not 0; the
  function has no failing branch, and its result is the quotient that the arithmetic of
  doubles gives. The quotient of the exact dot product and the exact norms lies between
  -1 and 1.
\<close>

theorem cosineSimilarity_properties:
  "cosineSimilarity a b = cosineSimilarity b a
   \<and> (length a \<noteq> length b \<longrightarrow> cosineSimilarity a b = Finite 0)
   \<and> ((\<forall>x\<in>set a. x = 0) \<or> (\<forall>x\<in>set b. x = 0) \<longrightarrow> cosineSimilarity a b = Finite 0)
   \<and> (length a = length b \<and> cosine_sums a b = (dotProduct, normA, normB) \<longrightarrow>
        (normA = Finite 0 \<or> normB = Finite 0 \<longrightarrow> cosineSimilarity a b = Finite 0)
        \<and> (normA \<noteq> Finite 0 \<and> normB \<noteq> Finite 0 \<longrightarrow>
             fmul (fsqrt normA) (fsqrt normB) \<noteq> Finite 0
             \<and> cosineSimilarity a b = fdiv dotProduct (fmul (fsqrt normA) (fsqrt normB))))
   \<and> (length a = length b \<longrightarrow> - 1 \<le> exact_cosine a b \<and> exact_cosine a b \<le> 1)"
proof -
  have sym: "cosineSimilarity a b = cosineSimilarity b a"
    by (rule cosineSimilarity_commute)
  have mismatch: "cosineSimilarity a b = Finite 0" if "length a \<noteq> length b"
    using that by (simp add: cosineSimilarity_def)
  have zero_vec: "cosineSimilarity a b = Finite 0" if "(\<forall>x\<in>set a. x = 0) \<or> (\<forall>x\<in>set b. x = 0)"
    using that cosineSimilarity_zero_left [of a b] cosineSimilarity_zero_left [of b a]
      cosineSimilarity_commute [of a b]
    by auto
  have zero_norm: "cosineSimilarity a b = Finite 0"
    if "cosine_sums a b = (dotProduct, normA, normB)" "normA = Finite 0 \<or> normB = Finite 0"
    using that by (auto simp add: cosineSimilarity_def)
  have divisor: "fmul (fsqrt normA) (fsqrt normB) \<noteq> Finite 0"
    if "cosine_sums a b = (dotProduct, normA, normB)" "normA \<noteq> Finite 0" "normB \<noteq> Finite 0"
    using that by (rule divisor_nonzero)
  have quotient: "cosineSimilarity a b = fdiv dotProduct (fmul (fsqrt normA) (fsqrt normB))"
    if "length a = length b" "cosine_sums a b = (dotProduct, normA, normB)"
      "normA \<noteq> Finite 0" "normB \<noteq> Finite 0"
    using that by (simp add: cosineSimilarity_def)
  have exact: "- 1 \<le> exact_cosine a b" "exact_cosine a b \<le> 1" if "length a = length b"
    using exact_cosine_bounds [OF that] by (simp_all add: abs_le_iff)
  show ?thesis
    using sym mismatch zero_vec zero_norm divisor quotient exact by blast
qed

theorem cosineSimilarity_properties_witness:
  "cosineSimilarity [1, 2] [0, 0] = Finite 0
   \<and> cosineSimilarity [1, 2] [1, 2, 3] = Finite 0
   \<and> cosine_sums [1, 1, 1] [1, 1, 1] = (Finite 3, Finite 3, Finite 3)
   \<and> fmul (fsqrt (Finite 3)) (fsqrt (Finite 3)) \<noteq> Finite 0
   \<and> cosineSimilarity [1, 1, 1] [1, 1, 1]
       = fdiv (Finite 3) (fmul (fsqrt (Finite 3)) (fsqrt (Finite 3)))
   \<and> exact_cosine [3, 4] [4, 3] \<le> 1"
proof -
  have sums: "cosine_sums [1, 1, 1] [1, 1, 1] = (Finite 3, Finite 3, Finite 3)"
    by (rule cosine_sums_ones)
  have zeros: "\<forall>x\<in>set [0, 0 :: real]. x = 0"
    by simp
  have lengths: "length [1, 2 :: real] \<noteq> length [1, 2, 3 :: real]"
    "length [1, 1, 1 :: real] = length [1, 1, 1 :: real]"
    "length [3, 4 :: real] = length [4, 3 :: real]"
    by simp_all
  have three: "Finite 3 \<noteq> Finite 0"
    by simp
  have "cosineSimilarity [1, 2] [0, 0] = Finite 0"
    using cosineSimilarity_properties [of "[1, 2]" "[0, 0]" NaN NaN NaN] zeros by blast
  moreover have "cosineSimilarity [1, 2] [1, 2, 3] = Finite 0"
    using cosineSimilarity_properties [of "[1, 2]" "[1, 2, 3]" NaN NaN NaN] lengths(1) by blast
  moreover have "fmul (fsqrt (Finite 3)) (fsqrt (Finite 3)) \<noteq> Finite 0
      \<and> cosineSimilarity [1, 1, 1] [1, 1, 1]
          = fdiv (Finite 3) (fmul (fsqrt (Finite 3)) (fsqrt (Finite 3)))"
    using cosineSimilarity_properties [of "[1, 1, 1]" "[1, 1, 1]" "Finite 3" "Finite 3" "Finite 3"]
      sums lengths(2) three
    by blast
  moreover have "exact_cosine [3, 4] [4, 3] \<le> 1"
    using cosineSimilarity_properties [of "[3, 4]" "[4, 3]" NaN NaN NaN] lengths(3) by blast
  ultimately show ?thesis
    using sums by blast
qed

text \<open>
  The claim as the specification states it fails for \<open>a = b = [1, 1, 1]\<close>: both squared
  norms and the dot product are 3, the rounded square root of 3 times itself rounds to
  \<open>3 - 2\<^sup>-\<^sup>5\<^sup>1\<close>, and 3 divided by it rounds to \<open>1 + 2\<^sup>-\<^sup>5\<^sup>2\<close>, the double above 1. For
  \<open>a = b = [2\<^sup>6\<^sup>0\<^sup>0]\<close> the sums overflow and the result is not a number.
\<close>

theorem cosineSimilarity_properties_counterexample:
  "cosineSimilarity [1, 1, 1] [1, 1, 1] = Finite (1 + 1 / 2 ^ 52)
   \<and> \<not> (1 + 1 / 2 ^ 52 \<le> (1 :: real))
   \<and> cosineSimilarity [2 ^ 600] [2 ^ 600] = NaN"
  using cosineSimilarity_ones cosineSimilarity_overflow by simp

section \<open>Properties of the chunker\<close>

lemma sliding_windows_first:
  assumes "t \<noteq> []" "overlap < window"
  shows "\<exists>rest. sliding_windows window overlap t = take window t # rest"
  using assms by (subst sliding_windows.simps) auto

lemma remove_overlaps_drop:
  assumes "cs = c # rest" "overlap \<le> length c"
  shows "concat (map (drop overlap) cs) = drop overlap (remove_overlaps overlap cs)"
  using assms by simp

lemma sliding_windows_concat:
  "overlap < window \<Longrightarrow> remove_overlaps overlap (sliding_windows window overlap t) = t"
proof (induction window overlap t rule: sliding_windows.induct)
  case (1 window overlap t)
  show ?case
  proof (cases "t = [] \<or> length t \<le> window")
    case True
    then show ?thesis by (subst sliding_windows.simps) auto
  next
    case False
    define tail where "tail = drop (window - overlap) t"
    from False "1.prems" have long: "window < length t" "t \<noteq> []" by auto
    then have tail_len: "overlap < length tail"
      using "1.prems" by (simp add: tail_def)
    then have "tail \<noteq> []" by auto
    then obtain rest where rest: "sliding_windows window overlap tail = take window tail # rest"
      using sliding_windows_first "1.prems" by blast
    have unfold: "sliding_windows window overlap t = take window t # sliding_windows window overlap tail"
      using long "1.prems" by (subst sliding_windows.simps) (simp add: tail_def)
    have IH: "remove_overlaps overlap (sliding_windows window overlap tail) = tail"
      using "1.IH" long "1.prems" by (simp add: tail_def)
    have "overlap \<le> length (take window tail)"
      using tail_len "1.prems" by simp
    then have "concat (map (drop overlap) (sliding_windows window overlap tail)) = drop overlap tail"
      using remove_overlaps_drop [OF rest] IH by simp
    also have "\<dots> = drop window t"
      using "1.prems" by (simp add: tail_def)
    finally show ?thesis
      by (simp add: unfold)
  qed
qed

lemma sliding_windows_length:
  "overlap < window \<Longrightarrow> c \<in> set (sliding_windows window overlap t) \<Longrightarrow> length c \<le> window"
proof (induction window overlap t rule: sliding_windows.induct)
  case (1 window overlap t)
  show ?case
  proof (cases "t = [] \<or> length t \<le> window")
    case True
    with "1.prems" show ?thesis by (subst (asm) sliding_windows.simps) (auto split: if_splits)
  next
    case False
    define tail where "tail = drop (window - overlap) t"
    from False "1.prems" have long: "window < length t" "t \<noteq> []" by auto
    have unfold: "sliding_windows window overlap t = take window t # sliding_windows window overlap tail"
      using long "1.prems" by (subst sliding_windows.simps) (simp add: tail_def)
    from "1.prems"(2) have "c = take window t \<or> c \<in> set (sliding_windows window overlap tail)"
      by (simp add: unfold)
    then show ?thesis
    proof
      assume "c = take window t"
      then show ?thesis by simp
    next
      assume "c \<in> set (sliding_windows window overlap tail)"
      then show ?thesis using "1.IH" long "1.prems"(1) by (simp add: tail_def)
    qed
  qed
qed

lemma sliding_windows_full:
  "overlap < window \<Longrightarrow> c \<in> set (butlast (sliding_windows window overlap t)) \<Longrightarrow> length c = window"
proof (induction window overlap t rule: sliding_windows.induct)
  case (1 window overlap t)
  show ?case
  proof (cases "t = [] \<or> length t \<le> window")
    case True
    with "1.prems" show ?thesis by (subst (asm) sliding_windows.simps) (auto split: if_splits)
  next
    case False
    define tail where "tail = drop (window - overlap) t"
    from False "1.prems" have long: "window < length t" "t \<noteq> []" by auto
    have unfold: "sliding_windows window overlap t = take window t # sliding_windows window overlap tail"
      using long "1.prems" by (subst sliding_windows.simps) (simp add: tail_def)
    from "1.prems"(2) have "c = take window t \<or> c \<in> set (butlast (sliding_windows window overlap tail))"
      by (auto simp: unfold split: if_splits)
    then show ?thesis
    proof
      assume "c = take window t"
      then show ?thesis using long by simp
    next
      assume "c \<in> set (butlast (sliding_windows window overlap tail))"
      then show ?thesis using "1.IH" long "1.prems"(1) by (simp add: tail_def)
    qed
  qed
qed

lemma sliding_windows_nth:
  "overlap < window \<Longrightarrow> i < length (sliding_windows window overlap t) \<Longrightarrow>
   sliding_windows window overlap t ! i = take window (drop (i * (window - overlap)) t)"
proof (induction window overlap t arbitrary: i rule: sliding_windows.induct)
  case (1 window overlap t)
  show ?case
  proof (cases "t = [] \<or> length t \<le> window")
    case True
    with "1.prems" show ?thesis by (subst sliding_windows.simps, subst (asm) sliding_windows.simps) auto
  next
    case False
    define tail where "tail = drop (window - overlap) t"
    from False "1.prems" have long: "window < length t" "t \<noteq> []" by auto
    have unfold: "sliding_windows window overlap t = take window t # sliding_windows window overlap tail"
      using long "1.prems" by (subst sliding_windows.simps) (simp add: tail_def)
    show ?thesis
    proof (cases i)
      case 0
      then show ?thesis by (simp add: unfold)
    next
      case (Suc j)
      with "1.prems" have "j < length (sliding_windows window overlap tail)"
        by (simp add: unfold)
      then have "sliding_windows window overlap tail ! j = take window (drop (j * (window - overlap)) tail)"
        using "1.IH" long "1.prems"(1) by (simp add: tail_def)
      then show ?thesis
        by (simp add: unfold Suc tail_def add.commute)
    qed
  qed
qed

text \<open>
  C6. For every text the chunker (window 1000, overlap 200) covers the text without gaps:
  the chunks joined with their overlaps removed are the text again; chunk number \<open>i\<close> is
  the window of 1000 characters that starts at offset \<open>800 * i\<close>; no chunk is longer than
  1000 characters, and every chunk but the last has exactly 1000.
\<close>

theorem splitText_covers:
  "remove_overlaps chunkOverlap (splitText t) = t
   \<and> (\<forall>c\<in>set (splitText t). length c \<le> chunkSize)
   \<and> (\<forall>c\<in>set (butlast (splitText t)). length c = chunkSize)
   \<and> (\<forall>i<length (splitText t). splitText t ! i = take chunkSize (drop (i * 800) t))"
proof -
  have lt: "chunkOverlap < chunkSize"
    by (simp add: chunkOverlap_def chunkSize_def)
  have "chunkSize - chunkOverlap = 800"
    by (simp add: chunkOverlap_def chunkSize_def)
  then show ?thesis
    unfolding splitText_def
    using sliding_windows_concat [OF lt] sliding_windows_length [OF lt]
      sliding_windows_full [OF lt] sliding_windows_nth [OF lt, of _ t]
    by auto
qed

lemma splitText_example:
  "splitText (replicate 1001 (CHR ''a''))
     = [replicate 1000 (CHR ''a''), replicate 201 (CHR ''a'')]"
  unfolding splitText_def chunkSize_def chunkOverlap_def
  by (simp add: sliding_windows.simps [of _ _ "replicate n x" for n x])

theorem splitText_covers_witness:
  "replicate 1000 (CHR ''a'') \<in> set (butlast (splitText (replicate 1001 (CHR ''a''))))
   \<and> length (replicate 1000 (CHR ''a'')) = chunkSize
   \<and> replicate 201 (CHR ''a'') \<in> set (splitText (replicate 1001 (CHR ''a'')))
   \<and> length (replicate 201 (CHR ''a'')) \<le> chunkSize
   \<and> 1 < length (splitText (replicate 1001 (CHR ''a'')))
   \<and> splitText (replicate 1001 (CHR ''a'')) ! 1
       = take chunkSize (drop 800 (replicate 1001 (CHR ''a'')))
   \<and> remove_overlaps chunkOverlap (splitText (replicate 1001 (CHR ''a'')))
       = replicate 1001 (CHR ''a'')"
  using splitText_covers [of "replicate 1001 (CHR ''a'')"]
  by (simp add: splitText_example chunkSize_def chunkOverlap_def)

section \<open>Properties of the vector index\<close>

lemma addDocuments_map:
  "addDocuments embedder index docs = index @ map (entry_of embedder) docs"
  unfolding addDocuments_def
  by (induction docs arbitrary: index) (simp_all add: entry_of_def)

text \<open>
  The sort permutes its argument. Where the comparator orders as a key does, it is the
  stable sort by that key.
\<close>

lemma set_insert_sorted: "set (insert_sorted comparefn x ys) = insert x (set ys)"
  by (induction ys) auto

lemma length_insert_sorted: "length (insert_sorted comparefn x ys) = Suc (length ys)"
  by (induction ys) simp_all

lemma set_array_sort: "set (array_sort comparefn xs) = set xs"
  by (induction xs) (simp_all add: array_sort_def set_insert_sorted)

lemma length_array_sort: "length (array_sort comparefn xs) = length xs"
  by (induction xs) (simp_all add: array_sort_def length_insert_sorted)












lemma similaritySearch_all:
  assumes "length index \<le> k"
  shows "set (similaritySearch embedder index query k)
           = (\<lambda>d. \<lparr>pageContent = content d, metadata = doc_meta d\<rparr>) ` set index"
proof -
  have "take k (array_sort comparefn xs) = array_sort comparefn xs" if "length xs \<le> k"
    for comparefn :: "indexed_doc \<times> jsnum \<Rightarrow> indexed_doc \<times> jsnum \<Rightarrow> jsnum" and xs
    using that by (simp add: length_array_sort)
  then show ?thesis
    using assms by (simp add: similaritySearch_def Let_def set_array_sort image_image)
qed

lemma within_scope_member:
  "within_scope settings results \<Longrightarrow> allowedDocIds settings = Some allowed \<Longrightarrow>
   r \<in> set results \<Longrightarrow> metadata r = Some m \<Longrightarrow> docId m \<in> allowed"
  by (auto simp: within_scope_def list_all_iff)








text \<open>
  C2. With \<^verbatim>\<open>allowedDocIds\<close> set to the one document \<open>1\<close>, the chunks retrieved for a
  query must not come from another document. The handler never reads the setting: after
  the client has focused retrieval on document 1, a query still retrieves the chunk of
  document 2.
\<close>

theorem searchResults_ignore_allowedDocIds:
  "allowedDocIds (retrievalSettings focus_on_1) = Some {''1''}
   \<and> \<lparr>pageContent = ''payout limits'',
       metadata = Some \<lparr>source = ''uploads/2-limits.txt'', docId = ''2'', isSystemDocument = False\<rparr>\<rparr>
     \<in> set (searchResults (retrievalSettings focus_on_1) None (indexedDocuments focus_on_1)
               ''payout limits'')
   \<and> \<not> within_scope (retrievalSettings focus_on_1)
         (searchResults (retrievalSettings focus_on_1) None (indexedDocuments focus_on_1)
            ''payout limits'')"
proof -
  let ?c2 = "\<lparr>pageContent = ''payout limits'',
              metadata = Some \<lparr>source = ''uploads/2-limits.txt'', docId = ''2'',
                               isSystemDocument = False\<rparr>\<rparr>"
  let ?results = "searchResults (retrievalSettings focus_on_1) None (indexedDocuments focus_on_1)
                    ''payout limits''"
  have allowed: "allowedDocIds (retrievalSettings focus_on_1) = Some {''1''}"
    by (simp add: focus_on_1_def post_retrieval_settings_def)
  have "set ?results
          = (\<lambda>d. \<lparr>pageContent = content d, metadata = doc_meta d\<rparr>)
              ` set (indexedDocuments focus_on_1)"
    unfolding searchResults_def
    by (rule similaritySearch_all)
      (simp add: focus_on_1_def post_retrieval_settings_def two_documents_def addDocuments_map)
  then have member: "?c2 \<in> set ?results"
    by (simp add: focus_on_1_def post_retrieval_settings_def two_documents_def addDocuments_map
        entry_of_def)
  have "\<not> within_scope (retrievalSettings focus_on_1) ?results"
  proof
    assume "within_scope (retrievalSettings focus_on_1) ?results"
    from within_scope_member [OF this allowed member] show False by simp
  qed
  with allowed member show ?thesis by simp
qed

lemma process_query_uses_searchResults:
  assumes "isRAGInitialized s" "query \<noteq> []"
    and "\<not> list_all is_space
             (context_of (searchResults (retrievalSettings s) embedder (indexedDocuments s) query))"
  shows "process_query s embedder llm query
         = Answer (synthesize query
                     (llm (context_of (searchResults (retrievalSettings s) embedder
                                         (indexedDocuments s) query))
                        query))"
  using assms by (simp add: process_query_def Let_def)

section \<open>Properties of deletion\<close>

lemma findIndex_None: "findIndex p xs = None \<longleftrightarrow> (\<forall>x\<in>set xs. \<not> p x)"
  by (induction xs) (auto split: option.splits)

lemma findIndex_Some:
  "findIndex p xs = Some i \<Longrightarrow> i < length xs \<and> p (xs ! i) \<and> (\<forall>j<i. \<not> p (xs ! j))"
proof (induction xs arbitrary: i)
  case Nil
  then show ?case by simp
next
  case (Cons x xs)
  show ?case
  proof (cases "p x")
    case True
    with Cons.prems show ?thesis by simp
  next
    case False
    with Cons.prems obtain k where k: "findIndex p xs = Some k" "i = Suc k"
      by (auto split: option.splits)
    from Cons.IH [OF k(1)] False k(2) show ?thesis
      by (auto simp: nth_Cons split: nat.splits)
  qed
qed

lemma delete_document_NotFound:
  "fst (delete_document s ident) = NotFound \<longleftrightarrow> (\<forall>d\<in>set (documentRegistry s). reg_id d \<noteq> ident)"
  using findIndex_None [of "\<lambda>d. reg_id d = ident" "documentRegistry s"]
  by (auto simp: delete_document_def Let_def split: option.splits sum.splits)

lemma delete_document_unchanged:
  "fst (delete_document s ident) \<noteq> Deleted \<Longrightarrow> snd (delete_document s ident) = s"
  by (auto simp: delete_document_def Let_def split: option.splits sum.splits if_splits)

lemma delete_document_Forbidden:
  assumes "fst (delete_document s ident) = Forbidden"
  shows "\<exists>d\<in>set (documentRegistry s). reg_id d = ident \<and> reg_isSystemDocument d"
proof -
  from assms obtain index where i: "findIndex (\<lambda>d. reg_id d = ident) (documentRegistry s) = Some index"
    and sys: "reg_isSystemDocument (documentRegistry s ! index)"
    by (auto simp: delete_document_def Let_def split: option.splits sum.splits if_splits)
  from findIndex_Some [OF i] sys show ?thesis
    by (metis nth_mem)
qed

lemma delete_document_Deleted:
  assumes "delete_document s ident = (Deleted, s')"
  shows "\<exists>index. findIndex (\<lambda>d. reg_id d = ident) (documentRegistry s) = Some index
           \<and> index < length (documentRegistry s)
           \<and> reg_id (documentRegistry s ! index) = ident
           \<and> \<not> reg_isSystemDocument (documentRegistry s ! index)
           \<and> documentRegistry s' = splice1 index (documentRegistry s)
           \<and> (reg_path (documentRegistry s ! index) \<noteq> [] \<longrightarrow>
                files (uploads s') = files (uploads s) - {reg_path (documentRegistry s ! index)})
           \<and> indexedDocuments s'
                = filter (\<lambda>d. case doc_meta d of None \<Rightarrow> True | Some m \<Rightarrow> docId m \<noteq> ident)
                    (indexedDocuments s)
           \<and> (\<forall>d\<in>set (indexedDocuments s'). \<forall>m. doc_meta d = Some m \<longrightarrow> docId m \<noteq> ident)"
proof -
  from assms obtain index where i: "findIndex (\<lambda>d. reg_id d = ident) (documentRegistry s) = Some index"
    by (auto simp: delete_document_def Let_def split: option.splits)
  note fi = findIndex_Some [OF i]
  from assms i have nosys: "\<not> reg_isSystemDocument (documentRegistry s ! index)"
    by (auto simp: delete_document_def Let_def split: if_splits)
  from assms i nosys show ?thesis
    using fi
    by (auto simp: delete_document_def Let_def unlinkSync_def split: if_splits sum.splits)
qed

text \<open>
  C10. When deletion fails with \<open>NotFound\<close> (no registry entry has the id) or with
  \<open>Forbidden\<close> (the entry is a system document), the registry, the files on disk and
  the vector index are unchanged; the state changes on the success path only, where the
  registry entry and the file are removed and no indexed vector of the document is left.
\<close>

theorem delete_document_failure:
  "(fst (delete_document s ident) = NotFound
      \<longleftrightarrow> (\<forall>d\<in>set (documentRegistry s). reg_id d \<noteq> ident))
   \<and> (fst (delete_document s ident) = Forbidden
      \<longrightarrow> (\<exists>d\<in>set (documentRegistry s). reg_id d = ident \<and> reg_isSystemDocument d))
   \<and> (fst (delete_document s ident) \<in> {NotFound, Forbidden}
      \<longrightarrow> snd (delete_document s ident) = s)
   \<and> (fst (delete_document s ident) \<noteq> Deleted \<longrightarrow> snd (delete_document s ident) = s)
   \<and> (fst (delete_document s ident) = Deleted
      \<longrightarrow> (\<exists>index < length (documentRegistry s).
             reg_id (documentRegistry s ! index) = ident
             \<and> \<not> reg_isSystemDocument (documentRegistry s ! index)
             \<and> documentRegistry (snd (delete_document s ident))
                 = splice1 index (documentRegistry s)
             \<and> (reg_path (documentRegistry s ! index) \<noteq> [] \<longrightarrow>
                  files (uploads (snd (delete_document s ident)))
                    = files (uploads s) - {reg_path (documentRegistry s ! index)})
             \<and> (\<forall>d\<in>set (indexedDocuments (snd (delete_document s ident))).
                   \<forall>m. doc_meta d = Some m \<longrightarrow> docId m \<noteq> ident)))"
proof -
  have "snd (delete_document s ident) = s" if "fst (delete_document s ident) \<in> {NotFound, Forbidden}"
    using that delete_document_unchanged [of s ident] by auto
  moreover have "\<exists>index < length (documentRegistry s).
             reg_id (documentRegistry s ! index) = ident
             \<and> \<not> reg_isSystemDocument (documentRegistry s ! index)
             \<and> documentRegistry (snd (delete_document s ident))
                 = splice1 index (documentRegistry s)
             \<and> (reg_path (documentRegistry s ! index) \<noteq> [] \<longrightarrow>
                  files (uploads (snd (delete_document s ident)))
                    = files (uploads s) - {reg_path (documentRegistry s ! index)})
             \<and> (\<forall>d\<in>set (indexedDocuments (snd (delete_document s ident))).
                   \<forall>m. doc_meta d = Some m \<longrightarrow> docId m \<noteq> ident)"
    if "fst (delete_document s ident) = Deleted"
  proof -
    from that have "delete_document s ident = (Deleted, snd (delete_document s ident))"
      by (metis prod.collapse)
    from delete_document_Deleted [OF this] show ?thesis by blast
  qed
  ultimately show ?thesis
    using delete_document_NotFound [of s ident] delete_document_Forbidden [of s ident]
      delete_document_unchanged [of s ident]
    by blast
qed

lemma example_deletes:
  "delete_document example_state ''3'' = (NotFound, example_state)"
  "delete_document example_state ''2'' = (Forbidden, example_state)"
  "delete_document example_state ''1''
     = (Deleted,
        \<lparr>isRAGInitialized = True,
         documentRegistry = [system_txt],
         indexedDocuments =
           [\<lparr>content = ''rules'', embedding = [0, 1],
             doc_meta = Some \<lparr>source = ''uploads/2-system.txt'', docId = ''2'',
                              isSystemDocument = True\<rparr>\<rparr>],
         uploads = \<lparr>files = {''uploads/2-system.txt''}, undeletable = {}\<rparr>,
         retrievalSettings = \<lparr>includeSystemDocuments = True, allowedDocIds = None\<rparr>\<rparr>)"
  by (auto simp: delete_document_def example_state_def policy_txt_def system_txt_def
      unlinkSync_def splice1_def)

theorem delete_document_failure_witness:
  "fst (delete_document example_state ''3'') \<in> {NotFound, Forbidden}
   \<and> snd (delete_document example_state ''3'') = example_state
   \<and> fst (delete_document example_state ''2'') = Forbidden
   \<and> snd (delete_document example_state ''2'') = example_state
   \<and> fst (delete_document example_state ''1'') = Deleted
   \<and> documentRegistry (snd (delete_document example_state ''1'')) = [system_txt]
   \<and> files (uploads (snd (delete_document example_state ''1''))) = {''uploads/2-system.txt''}
   \<and> map content (indexedDocuments (snd (delete_document example_state ''1''))) = [''rules'']"
  using delete_document_failure [of example_state "''3''"]
    delete_document_failure [of example_state "''2''"]
    delete_document_failure [of example_state "''1''"]
  by (simp add: example_deletes)

section \<open>Properties of answer synthesis\<close>

lemma partial_answer_match:
  "isMoneyQuestion ''What is the coverage limit?''"
  "amountMatch ''undefined Up to 100 USD'' = Some ''100 USD''"
  by code_simp+

lemma partial_answer_payload:
  "synthesize ''What is the coverage limit?'' (Parsed (JsonObject partial_answer))
   = \<lparr>Decision = ''approved'', Amount = Some 100, Justification = ''Up to 100 USD'',
      model_answer = partial_answer\<rparr>"
  by (simp add: synthesize_def try_block_def add_legacy_fields_def extractAmount_def
      partial_answer_match partial_answer_def js_string_def or_default_def is_digit_def
      digits_value_def)

text \<open>
  C8 (as amended). When a statement of the \<^verbatim>\<open>try\<close> block throws (HTTP error,
  timeout, a reply without text, text that does not parse as JSON, the JSON value
  \<^verbatim>\<open>null\<close>), the error is caught and the result is the fixed degraded payload:
  decision \<open>requires_more_info\<close>, no amount, the technical-error justification. A parsed
  object is not a failure, whichever of the fields it lacks: the payload is made from it,
  with the decision \<open>requires_more_info\<close> when it has none and the stock justification
  when it has no reasoning.
\<close>

theorem synthesize_failure:
  "(call_throws outcome \<longrightarrow>
      (\<exists>e. try_block query outcome = Inl e)
      \<and> synthesize query outcome = fallbackResponse
      \<and> Decision (synthesize query outcome) = ''requires_more_info''
      \<and> Amount (synthesize query outcome) = None
      \<and> Justification (synthesize query outcome)
          = ''Technical error occurred while analyzing policy documents.'')
   \<and> (outcome = Parsed (JsonObject finalResponse) \<longrightarrow>
        try_block query outcome = Inr (add_legacy_fields query finalResponse)
        \<and> synthesize query outcome = add_legacy_fields query finalResponse
        \<and> Decision (synthesize query outcome)
            = or_default (decision finalResponse) ''requires_more_info''
        \<and> Justification (synthesize query outcome)
            = or_default (reasoning finalResponse) ''Response generated based on policy documents''
        \<and> model_answer (synthesize query outcome) = finalResponse)"
proof -
  have "(\<exists>e. try_block query outcome = Inl e) \<and> synthesize query outcome = fallbackResponse"
    if "call_throws outcome"
    using that by (cases outcome rule: call_throws.cases) (simp_all add: synthesize_def try_block_def)
  moreover have "try_block query outcome = Inr (add_legacy_fields query finalResponse)
      \<and> synthesize query outcome = add_legacy_fields query finalResponse"
    if "outcome = Parsed (JsonObject finalResponse)"
    using that by (simp add: synthesize_def try_block_def)
  ultimately show ?thesis
    by (auto simp add: fallbackResponse_def add_legacy_fields_def)
qed

theorem synthesize_failure_witness:
  "call_throws (HttpError 503) \<and> call_throws Timeout \<and> call_throws NoCandidateText
   \<and> call_throws ParseFailure \<and> call_throws (Parsed JsonNull)
   \<and> synthesize ''Is knee surgery covered?'' (HttpError 503) = fallbackResponse
   \<and> synthesize ''Is knee surgery covered?'' Timeout = fallbackResponse
   \<and> synthesize ''Is knee surgery covered?'' NoCandidateText = fallbackResponse
   \<and> Decision (synthesize ''Is knee surgery covered?'' ParseFailure) = ''requires_more_info''
   \<and> Amount (synthesize ''Is knee surgery covered?'' (Parsed JsonNull)) = None
   \<and> Decision (synthesize ''Is knee surgery covered?'' (Parsed (JsonObject partial_answer)))
       = ''approved''
   \<and> Justification (synthesize ''Is knee surgery covered?'' (Parsed (JsonObject partial_answer)))
       = ''Up to 100 USD''"
  using synthesize_failure [of "HttpError 503" "''Is knee surgery covered?''"]
    synthesize_failure [of Timeout "''Is knee surgery covered?''"]
    synthesize_failure [of NoCandidateText "''Is knee surgery covered?''"]
    synthesize_failure [of ParseFailure "''Is knee surgery covered?''"]
    synthesize_failure [of "Parsed JsonNull" "''Is knee surgery covered?''"]
    synthesize_failure [of "Parsed (JsonObject partial_answer)" "''Is knee surgery covered?''"
      partial_answer]
  by (simp add: fallbackResponse_def partial_answer_def or_default_def add_legacy_fields_def)

text \<open>
  The claim as the specification states it fails for a reply that lacks required fields:
  the object \<open>{decision: 'approved', reasoning: 'Up to 100 USD'}\<close> has no \<open>answer\<close>, and
  for the question \<open>What is the coverage limit?\<close> the payload made from it is an
  approval with the amount 100, not the degraded payload.
\<close>

theorem synthesize_failure_counterexample:
  "llm_failed (Parsed (JsonObject partial_answer))
   \<and> synthesize ''What is the coverage limit?'' (Parsed (JsonObject partial_answer))
       \<noteq> fallbackResponse
   \<and> Decision (synthesize ''What is the coverage limit?'' (Parsed (JsonObject partial_answer)))
       = ''approved''
   \<and> Amount (synthesize ''What is the coverage limit?'' (Parsed (JsonObject partial_answer)))
       = Some 100
   \<and> Justification (synthesize ''What is the coverage limit?'' (Parsed (JsonObject partial_answer)))
       = ''Up to 100 USD''"
  by (simp add: partial_answer_payload fallbackResponse_def)
    (simp add: missing_required_field_def partial_answer_def)

lemma process_query_llm_failure:
  assumes "isRAGInitialized s" "query \<noteq> []"
    and "\<not> list_all is_space
             (context_of (searchResults (retrievalSettings s) embedder (indexedDocuments s) query))"
    and "call_throws
           (llm (context_of (searchResults (retrievalSettings s) embedder (indexedDocuments s) query))
              query)"
  shows "process_query s embedder llm query = Answer fallbackResponse"
proof -
  let ?outcome = "llm (context_of (searchResults (retrievalSettings s) embedder
                                      (indexedDocuments s) query)) query"
  have "synthesize query ?outcome = fallbackResponse"
    using assms(4)
    by (cases ?outcome rule: call_throws.cases) (simp_all add: synthesize_def try_block_def)
  then show ?thesis
    using assms(1-3) by (simp add: process_query_def Let_def)
qed

lemma synthesize_amount_not_money:
  "\<not> isMoneyQuestion query \<Longrightarrow> Amount (synthesize query outcome) = None"
  by (cases outcome; (cases "case outcome of Parsed j \<Rightarrow> j | _ \<Rightarrow> JsonNull")?)
     (simp_all add: synthesize_def try_block_def fallbackResponse_def add_legacy_fields_def
       split: parsed_json.splits)

lemma synthesize_amount_money:
  "isMoneyQuestion query \<Longrightarrow>
   Amount (synthesize query (Parsed (JsonObject a)))
     = (case amountMatch (js_string (answer a) @ '' '' @ js_string (reasoning a)) of
          None \<Rightarrow> None
        | Some m \<Rightarrow>
            if filter is_digit m = [] \<or> digits_value (filter is_digit m) = 0 then None
            else Some (digits_value (filter is_digit m)))"
  by (simp add: synthesize_def try_block_def add_legacy_fields_def extractAmount_def Let_def
      split: option.splits)

lemma zero_payout_match:
  "isMoneyQuestion ''What is the payout amount?''"
  "amountMatch
     ''The payout is $0 during the waiting period. Clause 4 sets a waiting period of 6 months.''
   = Some ''$0''"
  "filter is_digit ''$0'' = ''0''"
  by code_simp+

text \<open>
  C9. For a money question the amount is to be the integer of the first match. When
  that integer is 0, \<^verbatim>\<open>parseInt(amountStr) || null\<close> gives no amount: for the answer
  \<open>The payout is $0 ...\<close> the match is \<open>$0\<close>, its integer is 0, and the payload has no
  amount.
\<close>

theorem synthesize_amount_zero:
  "isMoneyQuestion ''What is the payout amount?''
   \<and> amountMatch (js_string (answer zero_payout_answer) @ '' ''
                    @ js_string (reasoning zero_payout_answer)) = Some ''$0''
   \<and> digits_value (filter is_digit ''$0'') = 0
   \<and> Amount (synthesize ''What is the payout amount?'' (Parsed (JsonObject zero_payout_answer)))
       = None"
  by (simp add: synthesize_amount_money zero_payout_match zero_payout_answer_def js_string_def
      digits_value_def)

section \<open>Properties of the heuristic parser\<close>

lemma digit_runs_first:
  "(case digit_runs s of [] \<Rightarrow> None | n0 # ns \<Rightarrow> Some n0) = first_int_token s"
proof (cases "dropWhile (\<lambda>c. \<not> is_digit c) s")
  case Nil
  show ?thesis
    by (subst digit_runs.simps) (simp only: Nil first_int_token_def list.case)
next
  case (Cons c r)
  show ?thesis
    by (subst digit_runs.simps) (simp only: Cons first_int_token_def list.case)
qed

lemma find_locations:
  "(find p xs = None \<longleftrightarrow> (\<forall>x\<in>set xs. \<not> p x))
   \<and> (\<forall>l. find p xs = Some l \<longrightarrow> l \<in> set xs \<and> p l)"
  by (induction xs) auto

text \<open>
  C7 (as amended). The age in years is the first integer token of the text when the
  lowered text contains \<open>year\<close> anywhere, and the policy age in months is that same
  first integer token when it contains \<open>month\<close> anywhere; both are absent when the text
  has no digit. The location is a city of the gazetteer that occurs in the lowered text,
  absent when none does. The procedure follows \<open>knee\<close>, else \<open>hip\<close>, else \<open>surgery\<close>.
\<close>

theorem basicHeuristicParse_fields:
  "ageYears (basicHeuristicParse q)
     = (if str_includes (toLowerCase q) ''year''
        then (case first_int_token q of
                None \<Rightarrow> None
              | Some ds \<Rightarrow> if digits_value ds < double_overflow
                           then Some (Finite (real (digits_value ds))) else None)
        else None)
   \<and> policyAgeMonths (basicHeuristicParse q)
     = (if str_includes (toLowerCase q) ''month''
        then (case first_int_token q of
                None \<Rightarrow> None
              | Some ds \<Rightarrow> if digits_value ds < double_overflow
                           then Some (Finite (real (digits_value ds))) else Some PosInfinity)
        else None)
   \<and> ageMonths (basicHeuristicParse q) = None
   \<and> (location (basicHeuristicParse q) = None
        \<longleftrightarrow> (\<forall>l\<in>set locations. \<not> str_includes (toLowerCase q) l))
   \<and> (\<forall>l. location (basicHeuristicParse q) = Some l
        \<longrightarrow> l \<in> set locations \<and> str_includes (toLowerCase q) l)
   \<and> procedure (basicHeuristicParse q)
     = (if str_includes (toLowerCase q) ''knee'' then Some ''knee surgery''
        else if str_includes (toLowerCase q) ''hip'' then Some ''hip surgery''
        else if str_includes (toLowerCase q) ''surgery'' then Some ''surgery''
        else None)"
proof -
  have age: "ageYears (basicHeuristicParse q)
     = (if str_includes (toLowerCase q) ''year''
        then (case first_int_token q of
                None \<Rightarrow> None
              | Some ds \<Rightarrow> if digits_value ds < double_overflow
                           then Some (Finite (real (digits_value ds))) else None)
        else None)"
    by (cases "digit_runs q")
      (simp_all add: basicHeuristicParse_def Let_def parseInt10_def digit_runs_first [symmetric])
  have pol: "policyAgeMonths (basicHeuristicParse q)
     = (if str_includes (toLowerCase q) ''month''
        then (case first_int_token q of
                None \<Rightarrow> None
              | Some ds \<Rightarrow> if digits_value ds < double_overflow
                           then Some (Finite (real (digits_value ds))) else Some PosInfinity)
        else None)"
    by (cases "digit_runs q")
      (simp_all add: basicHeuristicParse_def Let_def parseInt10_def digit_runs_first [symmetric])
  have loc: "location (basicHeuristicParse q) = find (\<lambda>l. str_includes (toLowerCase q) l) locations"
    by (simp add: basicHeuristicParse_def Let_def)
  have rest: "ageMonths (basicHeuristicParse q) = None"
    "procedure (basicHeuristicParse q)
     = (if str_includes (toLowerCase q) ''knee'' then Some ''knee surgery''
        else if str_includes (toLowerCase q) ''hip'' then Some ''hip surgery''
        else if str_includes (toLowerCase q) ''surgery'' then Some ''surgery''
        else None)"
    by (simp_all add: basicHeuristicParse_def Let_def)
  show ?thesis
    using age pol rest find_locations [of "\<lambda>l. str_includes (toLowerCase q) l" locations]
    by (simp only: loc) blast
qed

lemma example_parse:
  "find (\<lambda>l. str_includes (toLowerCase ''3 months 40 years, knee surgery in Pune'') l) locations
     = Some ''pune''"
  "find (\<lambda>l. str_includes (toLowerCase ''hip'') l) locations = None"
  "first_int_token ''3 months 40 years, knee surgery in Pune'' = Some ''3''"
  "first_int_token ''hip'' = None"
  "str_includes (toLowerCase ''3 months 40 years, knee surgery in Pune'') ''year''"
  "str_includes (toLowerCase ''3 months 40 years, knee surgery in Pune'') ''month''"
  "str_includes (toLowerCase ''3 months 40 years, knee surgery in Pune'') ''knee''"
  "\<not> str_includes (toLowerCase ''hip'') ''year''"
  "\<not> str_includes (toLowerCase ''hip'') ''month''"
  "\<not> str_includes (toLowerCase ''hip'') ''knee''"
  "str_includes (toLowerCase ''hip'') ''hip''"
  by code_simp+

theorem basicHeuristicParse_fields_witness:
  "ageYears (basicHeuristicParse ''3 months 40 years, knee surgery in Pune'') = Some (Finite 3)
   \<and> policyAgeMonths (basicHeuristicParse ''3 months 40 years, knee surgery in Pune'')
       = Some (Finite 3)
   \<and> location (basicHeuristicParse ''3 months 40 years, knee surgery in Pune'') = Some ''pune''
   \<and> ''pune'' \<in> set locations
   \<and> procedure (basicHeuristicParse ''3 months 40 years, knee surgery in Pune'')
       = Some ''knee surgery''
   \<and> location (basicHeuristicParse ''hip'') = None
   \<and> ageYears (basicHeuristicParse ''hip'') = None
   \<and> procedure (basicHeuristicParse ''hip'') = Some ''hip surgery''"
proof -
  have loc: "location (basicHeuristicParse ''3 months 40 years, knee surgery in Pune'') = Some ''pune''"
    "location (basicHeuristicParse ''hip'') = None"
    by (simp_all add: basicHeuristicParse_def Let_def example_parse)
  have num: "digits_value ''3'' = 3" "(3 :: nat) < double_overflow"
    by (simp_all add: digits_value_def double_overflow_def)
  show ?thesis
    using basicHeuristicParse_fields [of "''3 months 40 years, knee surgery in Pune''"]
      basicHeuristicParse_fields [of "''hip''"]
    by (simp add: loc num example_parse)
qed

lemma example_query:
  "digit_runs ''3 months 40 years'' = [''3'', ''40'']"
  "first_int_token ''3 months 40 years'' = Some ''3''"
  "str_includes (toLowerCase ''3 months 40 years'') ''year''"
  "str_includes (toLowerCase ''3 months 40 years'') ''month''"
  by code_simp+

lemma example_query_spec: "first_int_followed_by ''year'' ''3 months 40 years'' = Some 40"
  by code_simp

text \<open>
  The claim as the specification states it fails: in \<open>3 months 40 years\<close> the first
  integer followed by \<open>year\<close> is 40, and the parser gives 3 for the age.
\<close>

theorem basicHeuristicParse_fields_counterexample:
  "ageYears (basicHeuristicParse ''3 months 40 years'') = Some (Finite 3)
   \<and> first_int_followed_by ''year'' ''3 months 40 years'' = Some 40
   \<and> ageYears (basicHeuristicParse ''3 months 40 years'')
       \<noteq> map_option (\<lambda>n. Finite (real n)) (first_int_followed_by ''year'' ''3 months 40 years'')"
  by (simp add: basicHeuristicParse_def Let_def example_query example_query_spec parseInt10_def
      digits_value_def double_overflow_def)

section \<open>Properties of the policy evaluator\<close>

lemma finite_or_null_below:
  "(case finite_or_null x of None \<Rightarrow> False | Some a \<Rightarrow> a < b) = known_below x b"
  by (cases x rule: finite_or_null.cases) simp_all

lemma finite_or_null_above:
  "(case finite_or_null x of None \<Rightarrow> False | Some a \<Rightarrow> a > b) = known_above x b"
  by (cases x rule: finite_or_null.cases) simp_all

lemma finite_or_null_window:
  "(case finite_or_null x of None \<Rightarrow> False | Some a \<Rightarrow> a < b \<or> a > c)
     = (known_below x b \<or> known_above x c)"
  by (cases x rule: finite_or_null.cases) simp_all

lemma toLowerCase_Nil: "toLowerCase [] = []"
  by (simp add: toLowerCase_def)

lemma tier1_location:
  "(toLowerCase (case l of None \<Rightarrow> [] | Some s \<Rightarrow> s) \<in> set tier1) = in_tier1 l"
  by (cases l) (simp_all add: tier1_def toLowerCase_Nil)

text \<open>The scenarios of section 8 of the specification.\<close>

lemma policy_scenarios:
  "evaluatePolicyLogic \<lparr>ageYears = Some (Finite 30), ageMonths = None, procedure = None,
                        location = Some ''mumbai'', policyAgeMonths = Some (Finite 12)\<rparr>
     = \<lparr>Decision = ''approved'', Amount = Some 5000\<rparr>"
  "evaluatePolicyLogic \<lparr>ageYears = Some (Finite 17), ageMonths = None, procedure = None,
                        location = None, policyAgeMonths = None\<rparr>
     = \<lparr>Decision = ''rejected'', Amount = None\<rparr>"
  "evaluatePolicyLogic \<lparr>ageYears = Some (Finite 65), ageMonths = None, procedure = None,
                        location = None, policyAgeMonths = None\<rparr>
     = \<lparr>Decision = ''rejected'', Amount = None\<rparr>"
  "evaluatePolicyLogic \<lparr>ageYears = None, ageMonths = None, procedure = None,
                        location = None, policyAgeMonths = Some (Finite 3)\<rparr>
     = \<lparr>Decision = ''rejected'', Amount = None\<rparr>"
  "evaluatePolicyLogic \<lparr>ageYears = Some (Finite 35), ageMonths = None, procedure = None,
                        location = Some ''smalltown'', policyAgeMonths = Some (Finite 8)\<rparr>
     = \<lparr>Decision = ''approved'', Amount = Some 3000\<rparr>"
proof -
  have lower: "toLowerCase ''mumbai'' = ''mumbai''" "toLowerCase ''smalltown'' = ''smalltown''"
    by code_simp+
  show
    "evaluatePolicyLogic \<lparr>ageYears = Some (Finite 30), ageMonths = None, procedure = None,
                        location = Some ''mumbai'', policyAgeMonths = Some (Finite 12)\<rparr>
     = \<lparr>Decision = ''approved'', Amount = Some 5000\<rparr>"
  "evaluatePolicyLogic \<lparr>ageYears = Some (Finite 17), ageMonths = None, procedure = None,
                        location = None, policyAgeMonths = None\<rparr>
     = \<lparr>Decision = ''rejected'', Amount = None\<rparr>"
  "evaluatePolicyLogic \<lparr>ageYears = Some (Finite 65), ageMonths = None, procedure = None,
                        location = None, policyAgeMonths = None\<rparr>
     = \<lparr>Decision = ''rejected'', Amount = None\<rparr>"
  "evaluatePolicyLogic \<lparr>ageYears = None, ageMonths = None, procedure = None,
                        location = None, policyAgeMonths = Some (Finite 3)\<rparr>
     = \<lparr>Decision = ''rejected'', Amount = None\<rparr>"
  "evaluatePolicyLogic \<lparr>ageYears = Some (Finite 35), ageMonths = None, procedure = None,
                        location = Some ''smalltown'', policyAgeMonths = Some (Finite 8)\<rparr>
     = \<lparr>Decision = ''approved'', Amount = Some 3000\<rparr>"
    by (simp_all add: evaluatePolicyLogic_def Let_def lower tier1_def)
qed

text \<open>
  C1. For every structured query the evaluator applies the rules of section 4.6 in their
  order, the first matching rule winning: a known age below 0.5 is rejected with no
  amount; else a known age below 18 or above 60 is rejected; else a known policy age
  below 6 months is rejected; else the query is approved, with 5000 for a tier-1 location
  (case-insensitively) and 3000 otherwise. A query whose age and policy age are unknown
  is never rejected.
\<close>

theorem evaluatePolicyLogic_rules:
  "evaluatePolicyLogic q = policy_rules q
   \<and> (\<not> known (ageYears q) \<and> \<not> known (policyAgeMonths q)
        \<longrightarrow> Decision (evaluatePolicyLogic q) = ''approved'')"
proof -
  have eq: "evaluatePolicyLogic q = policy_rules q"
    unfolding evaluatePolicyLogic_def policy_rules_def Let_def
      finite_or_null_below finite_or_null_window tier1_location
    by simp
  have "Decision (policy_rules q) = ''approved''"
    if "\<not> known (ageYears q)" "\<not> known (policyAgeMonths q)"
  proof -
    have "\<not> known_below (ageYears q) b" "\<not> known_above (ageYears q) b"
      "\<not> known_below (policyAgeMonths q) b" for b
      using that
      by (cases "ageYears q" rule: finite_or_null.cases; cases "policyAgeMonths q" rule: finite_or_null.cases; simp)+
    then show ?thesis by (simp add: policy_rules_def)
  qed
  with eq show ?thesis by simp
qed

lemma toLowerCase_Mumbai: "toLowerCase ''Mumbai'' = ''mumbai''"
  by code_simp

theorem evaluatePolicyLogic_rules_witness:
  "\<not> known (ageYears \<lparr>ageYears = None, ageMonths = None, procedure = None,
                        location = Some ''Mumbai'', policyAgeMonths = Some NaN\<rparr>)
   \<and> \<not> known (policyAgeMonths \<lparr>ageYears = None, ageMonths = None, procedure = None,
                                 location = Some ''Mumbai'', policyAgeMonths = Some NaN\<rparr>)
   \<and> evaluatePolicyLogic \<lparr>ageYears = None, ageMonths = None, procedure = None,
                           location = Some ''Mumbai'', policyAgeMonths = Some NaN\<rparr>
       = \<lparr>Decision = ''approved'', Amount = Some 5000\<rparr>"
  using evaluatePolicyLogic_rules [of "\<lparr>ageYears = None, ageMonths = None, procedure = None,
                                        location = Some ''Mumbai'', policyAgeMonths = Some NaN\<rparr>"]
  by (simp add: policy_rules_def toLowerCase_Mumbai)

end
